theory Spec2Isabelle
  imports Main
begin

section \<open>The Contact table\<close>

text \<open>
  One row of the table \<^verbatim>\<open>Contact\<close> created by \<^verbatim>\<open>init_database\<close>. The column \<^verbatim>\<open>id\<close> is
  named \<open>id_c\<close> here (\<open>id\<close> is the identity function of HOL). Nullable text columns are
  \<open>string option\<close>, the nullable reference is \<open>int option\<close>. Timestamps are natural
  numbers (microseconds of some epoch): the code only stores, compares and sorts them.
\<close>

datatype precedence = Primary | Secondary

record contact =
  id_c :: int
  phoneNumber :: "string option"
  email :: "string option"
  linkedId :: "int option"
  linkPrecedence :: precedence
  createdAt :: nat
  updatedAt :: nat
  deletedAt :: "nat option"

text \<open>
  The database: the rows in table order (rowid order), the counter that \<^verbatim>\<open>AUTOINCREMENT\<close>
  keeps in \<^verbatim>\<open>sqlite_sequence\<close>, and the number of times \<^verbatim>\<open>datetime.now()\<close> has been read.
  The wall clock is a parameter \<open>clock\<close> of the writing functions: its \<open>n\<close>-th reading is
  \<open>clock n\<close>.
\<close>

record store =
  rows :: "contact list"
  seq :: int
  ticks :: nat

definition empty_store :: store where
  "empty_store = \<lparr>rows = [], seq = 0, ticks = 0\<rparr>"

record ContactResponse =
  primaryContatctId :: int
  emails :: "string list"
  phoneNumbers :: "string list"
  secondaryContactIds :: "int list"

text \<open>
  The failures of \<^verbatim>\<open>identify\<close>: the \<^verbatim>\<open>HTTPException\<close> with status 400 that it raises itself,
  the \<^verbatim>\<open>TypeError\<close> of \<^verbatim>\<open>dict(None)\<close> when \<^verbatim>\<open>fetchone()\<close> finds no row, the validation error
  of \<^verbatim>\<open>ContactResponse\<close> when \<^verbatim>\<open>primaryContatctId\<close> is \<^verbatim>\<open>None\<close>, the
  \<^verbatim>\<open>sqlite3.OperationalError\<close> of an \<^verbatim>\<open>INSERT\<close> that finds no rowid left, and the two that
  an empty sequence would raise (\<^verbatim>\<open>min\<close> and indexing).
\<close>

datatype error =
  HTTP400 | TypeError | ValidationError | OperationalError | ValueError | IndexError

section \<open>Python and SQL comparisons\<close>

text \<open>Python truthiness of an optional string: \<^verbatim>\<open>None\<close> and the empty string are false.\<close>

definition truthy :: "string option \<Rightarrow> bool" where
  "truthy s = (case s of None \<Rightarrow> False | Some x \<Rightarrow> x \<noteq> [])"

text \<open>SQL \<^verbatim>\<open>col = ?\<close>: true only when both sides are non-null and equal.\<close>

definition sql_eq :: "'a option \<Rightarrow> 'a option \<Rightarrow> bool" where
  "sql_eq a b = (case a of None \<Rightarrow> False | Some x \<Rightarrow> (case b of None \<Rightarrow> False | Some y \<Rightarrow> x = y))"

section \<open>Query layer\<close>

text \<open>
  \<^verbatim>\<open>ORDER BY createdAt ASC\<close> is the stable insertion sort of the library applied to the
  rows in table order.
\<close>

definition get_contacts_by_email_or_phone ::
    "string option \<Rightarrow> string option \<Rightarrow> store \<Rightarrow> contact list" where
  "get_contacts_by_email_or_phone em ph db =
     sort_key createdAt
       (filter (\<lambda>c. deletedAt c = None \<and> (sql_eq (email c) em \<or> sql_eq (phoneNumber c) ph))
          (rows db))"

definition get_all_linked_contacts :: "int option \<Rightarrow> store \<Rightarrow> contact list" where
  "get_all_linked_contacts primary_id db =
     sort_key createdAt
       (filter (\<lambda>c. deletedAt c = None \<and>
                     (sql_eq (Some (id_c c)) primary_id \<or> sql_eq (linkedId c) primary_id))
          (rows db))"

text \<open>Python's \<^verbatim>\<open>min(xs, key=f)\<close>: the first element whose key is minimal.\<close>

fun min_from :: "('a \<Rightarrow> nat) \<Rightarrow> 'a \<Rightarrow> 'a list \<Rightarrow> 'a" where
  "min_from f m [] = m"
| "min_from f m (x # xs) = min_from f (if f x < f m then x else m) xs"

definition py_min :: "('a \<Rightarrow> nat) \<Rightarrow> 'a list \<Rightarrow> error + 'a" where
  "py_min f xs = (case xs of [] \<Rightarrow> Inl ValueError | x # ys \<Rightarrow> Inr (min_from f x ys))"

text \<open>\<^verbatim>\<open>find_primary_contact_id\<close> is defined in the source; \<^verbatim>\<open>identify\<close> never calls it.\<close>

definition find_primary_contact_id :: "contact list \<Rightarrow> error + int" where
  "find_primary_contact_id contacts =
     (case find (\<lambda>c. linkPrecedence c = Primary) contacts of
        Some c \<Rightarrow> Inr (id_c c)
      | None \<Rightarrow> (case py_min createdAt contacts of Inl e \<Rightarrow> Inl e | Inr c \<Rightarrow> Inr (id_c c)))"

section \<open>Writes\<close>

text \<open>
  The rowid that \<^verbatim>\<open>AUTOINCREMENT\<close> assigns: one more than the largest of the stored counter
  and the rowids in the table. A rowid is a signed 64-bit integer: once the largest one,
  \<open>2\<^sup>6\<^sup>3 - 1\<close>, has been used, the \<^verbatim>\<open>INSERT\<close> fails (\<^verbatim>\<open>SQLITE_FULL\<close>).
\<close>

definition max_rowid :: int where
  "max_rowid = 9223372036854775807"

definition largest_rowid :: "store \<Rightarrow> int" where
  "largest_rowid db = fold max (map id_c (rows db)) (seq db)"

definition next_id :: "store \<Rightarrow> int" where
  "next_id db = largest_rowid db + 1"

text \<open>
  \<^verbatim>\<open>create_contact\<close> reads the clock, then runs the \<^verbatim>\<open>INSERT\<close>: the clock has been read also
  when the \<^verbatim>\<open>INSERT\<close> fails.
\<close>

definition create_contact ::
    "(nat \<Rightarrow> nat) \<Rightarrow> string option \<Rightarrow> string option \<Rightarrow> int option \<Rightarrow> precedence \<Rightarrow> store
      \<Rightarrow> (error + int) \<times> store" where
  "create_contact clock em ph linked_id link_precedence db =
     (let now = clock (ticks db);
          new_id = next_id db;
          row = \<lparr>id_c = new_id, phoneNumber = ph, email = em, linkedId = linked_id,
                 linkPrecedence = link_precedence, createdAt = now, updatedAt = now,
                 deletedAt = None\<rparr>
      in if max_rowid \<le> largest_rowid db
         then (Inl OperationalError, db\<lparr>ticks := Suc (ticks db)\<rparr>)
         else (Inr new_id,
               db\<lparr>rows := rows db @ [row], seq := new_id, ticks := Suc (ticks db)\<rparr>))"

definition update_contact_to_secondary ::
    "(nat \<Rightarrow> nat) \<Rightarrow> int \<Rightarrow> int \<Rightarrow> store \<Rightarrow> store" where
  "update_contact_to_secondary clock contact_id primary_id db =
     (let now = clock (ticks db)
      in db\<lparr>rows := map (\<lambda>c. if id_c c = contact_id
                               then c\<lparr>linkedId := Some primary_id, linkPrecedence := Secondary,
                                      updatedAt := now\<rparr>
                               else c) (rows db),
             ticks := Suc (ticks db)\<rparr>)"

section \<open>View assembler\<close>

text \<open>
  One step of the two collecting loops of \<^verbatim>\<open>consolidate_contacts\<close>:
  \<^verbatim>\<open>if v and v not in acc: acc.append(v)\<close>.
\<close>

definition add_unique :: "string option \<Rightarrow> string list \<Rightarrow> string list" where
  "add_unique v acc =
     (case v of None \<Rightarrow> acc
      | Some s \<Rightarrow> if s \<noteq> [] \<and> s \<notin> set acc then acc @ [s] else acc)"

text \<open>The last row of the list with the given id, as the partition loop leaves it.\<close>

definition primary_of :: "int option \<Rightarrow> contact list \<Rightarrow> contact option" where
  "primary_of primary_id all_contacts =
     (case filter (\<lambda>c. Some (id_c c) = primary_id) all_contacts of
        [] \<Rightarrow> None | c # cs \<Rightarrow> Some (last (c # cs)))"

definition secondaries_of :: "int option \<Rightarrow> contact list \<Rightarrow> contact list" where
  "secondaries_of primary_id all_contacts =
     filter (\<lambda>c. Some (id_c c) \<noteq> primary_id) all_contacts"

definition consolidate_contacts :: "int option \<Rightarrow> store \<Rightarrow> error + ContactResponse" where
  "consolidate_contacts primary_id db =
     (let all_contacts = get_all_linked_contacts primary_id db;
          primary_contact = primary_of primary_id all_contacts;
          secondary_contacts = secondaries_of primary_id all_contacts;
          emails0 = (case primary_contact of None \<Rightarrow> [] | Some pc \<Rightarrow> add_unique (email pc) []);
          phones0 = (case primary_contact of None \<Rightarrow> []
                     | Some pc \<Rightarrow> add_unique (phoneNumber pc) []);
          ems = fold (\<lambda>c acc. add_unique (email c) acc) secondary_contacts emails0;
          phs = fold (\<lambda>c acc. add_unique (phoneNumber c) acc) secondary_contacts phones0
      in case primary_id of
           None \<Rightarrow> Inl ValidationError
         | Some pid \<Rightarrow> Inr \<lparr>primaryContatctId = pid, emails = ems, phoneNumbers = phs,
                           secondaryContactIds = map id_c secondary_contacts\<rparr>)"

section \<open>Reconciliation engine\<close>

text \<open>The loop that looks for a row equal to the request in both fields (Python \<^verbatim>\<open>==\<close>).\<close>

definition exact_match :: "string option \<Rightarrow> string option \<Rightarrow> contact list \<Rightarrow> contact option" where
  "exact_match em ph existing_contacts =
     find (\<lambda>c. email c = em \<and> phoneNumber c = ph) existing_contacts"

text \<open>\<^verbatim>\<open>exact_match['linkedId'] if exact_match['linkedId'] else exact_match['id']\<close>:
  a link of 0 is false in Python, like \<^verbatim>\<open>None\<close>.\<close>

definition exact_primary_id :: "contact \<Rightarrow> int" where
  "exact_primary_id m =
     (case linkedId m of None \<Rightarrow> id_c m | Some l \<Rightarrow> if l \<noteq> 0 then l else id_c m)"

text \<open>
  The values added to the set \<^verbatim>\<open>primary_ids\<close>, in the order the loop adds them. The set
  \<^verbatim>\<open>all_related_contacts\<close> filled by the same loop is never read afterwards.
\<close>

definition root_of :: "contact \<Rightarrow> int option" where
  "root_of c = (if linkPrecedence c = Primary then Some (id_c c) else linkedId c)"

definition primary_ids :: "contact list \<Rightarrow> int option list" where
  "primary_ids existing_contacts = map root_of existing_contacts"

text \<open>\<^verbatim>\<open>SELECT * FROM Contact WHERE id = ?\<close> followed by \<^verbatim>\<open>dict(cursor.fetchone())\<close>.\<close>

definition fetchone_by_id :: "int option \<Rightarrow> store \<Rightarrow> contact option" where
  "fetchone_by_id pid db = find (\<lambda>c. sql_eq (Some (id_c c)) pid) (rows db)"

fun fetch_primaries :: "int option list \<Rightarrow> store \<Rightarrow> error + contact list" where
  "fetch_primaries [] db = Inr []"
| "fetch_primaries (pid # pids) db =
     (case fetchone_by_id pid db of
        None \<Rightarrow> Inl TypeError
      | Some c \<Rightarrow> (case fetch_primaries pids db of
                    Inl e \<Rightarrow> Inl e
                  | Inr cs \<Rightarrow> Inr (c # cs)))"

definition demote_others :: "(nat \<Rightarrow> nat) \<Rightarrow> contact \<Rightarrow> contact list \<Rightarrow> store \<Rightarrow> store" where
  "demote_others clock oldest_primary primary_contacts db =
     fold (\<lambda>primary d. if id_c primary \<noteq> id_c oldest_primary
                        then update_contact_to_secondary clock (id_c primary)
                               (id_c oldest_primary) d
                        else d) primary_contacts db"

text \<open>
  The merge step. Python does not fix the order in which a set is iterated, so the order
  is the parameter \<open>set_iter\<close>: it maps the sequence of values added to the set to the
  sequence in which \<^verbatim>\<open>for pid in primary_ids\<close> and \<^verbatim>\<open>list(primary_ids)\<close> yield them.
\<close>

definition resolve_primary ::
    "(nat \<Rightarrow> nat) \<Rightarrow> (int option list \<Rightarrow> int option list) \<Rightarrow> contact list \<Rightarrow> store
      \<Rightarrow> error + (int option \<times> store)" where
  "resolve_primary clock set_iter existing_contacts db =
     (let pids = primary_ids existing_contacts in
      if length (remdups pids) > 1 then
        (case fetch_primaries (set_iter pids) db of
           Inl e \<Rightarrow> Inl e
         | Inr primary_contacts \<Rightarrow>
             (case py_min createdAt primary_contacts of
                Inl e \<Rightarrow> Inl e
              | Inr oldest_primary \<Rightarrow>
                  Inr (Some (id_c oldest_primary),
                       demote_others clock oldest_primary primary_contacts db)))
      else (case set_iter pids of
              [] \<Rightarrow> Inl IndexError
            | pid # _ \<Rightarrow> Inr (pid, db)))"

definition has_new_info :: "string option \<Rightarrow> string option \<Rightarrow> int option \<Rightarrow> store \<Rightarrow> bool" where
  "has_new_info em ph primary_id db =
     (let all_contacts = get_all_linked_contacts primary_id db;
          existing_emails = set (filter truthy (map email all_contacts));
          existing_phones = set (filter truthy (map phoneNumber all_contacts));
          new_email = (truthy em \<and> em \<notin> existing_emails);
          new_phone = (truthy ph \<and> ph \<notin> existing_phones)
      in new_email \<or> new_phone)"

definition add_new_info ::
    "(nat \<Rightarrow> nat) \<Rightarrow> string option \<Rightarrow> string option \<Rightarrow> int option \<Rightarrow> store
      \<Rightarrow> error option \<times> store" where
  "add_new_info clock em ph primary_id db =
     (if has_new_info em ph primary_id db
      then (case create_contact clock em ph primary_id Secondary db of
              (Inl e, db1) \<Rightarrow> (Some e, db1)
            | (Inr new_id, db1) \<Rightarrow> (None, db1))
      else (None, db))"

definition identify ::
    "(nat \<Rightarrow> nat) \<Rightarrow> (int option list \<Rightarrow> int option list) \<Rightarrow> string option \<Rightarrow> string option
      \<Rightarrow> store \<Rightarrow> (error + ContactResponse) \<times> store" where
  "identify clock set_iter em ph db =
     (if \<not> truthy em \<and> \<not> truthy ph then (Inl HTTP400, db)
      else
        let existing_contacts = get_contacts_by_email_or_phone em ph db in
        if existing_contacts = [] then
          (case create_contact clock em ph None Primary db of
             (Inl e, db1) \<Rightarrow> (Inl e, db1)
           | (Inr new_contact_id, db1) \<Rightarrow>
               (consolidate_contacts (Some new_contact_id) db1, db1))
        else
          (case exact_match em ph existing_contacts of
             Some m \<Rightarrow> (consolidate_contacts (Some (exact_primary_id m)) db, db)
           | None \<Rightarrow>
               (case resolve_primary clock set_iter existing_contacts db of
                  Inl e \<Rightarrow> (Inl e, db)
                | Inr (primary_id, db1) \<Rightarrow>
                    (case add_new_info clock em ph primary_id db1 of
                       (Some e, db2) \<Rightarrow> (Inl e, db2)
                     | (None, db2) \<Rightarrow> (consolidate_contacts primary_id db2, db2)))))"

section \<open>Notions used to state the properties\<close>

text \<open>
  The list of values that an optional string contributes to a result list: nothing when
  it is \<^verbatim>\<open>None\<close> or empty (the code tests \<^verbatim>\<open>if contact['email']\<close>), else the string.
\<close>

definition present :: "string option \<Rightarrow> string list" where
  "present v = (case v of None \<Rightarrow> [] | Some s \<Rightarrow> if s = [] then [] else [s])"

text \<open>
  The values of a list in the order of their first occurrence: the value at position \<open>i\<close>
  is kept when it does not occur before position \<open>i\<close>, and skipped otherwise.
\<close>

definition first_occurrences :: "'a list \<Rightarrow> 'a list" where
  "first_occurrences xs =
     map (\<lambda>i. xs ! i) (filter (\<lambda>i. xs ! i \<notin> set (take i xs)) [0..<length xs])"

definition present_values :: "string option list \<Rightarrow> string list" where
  "present_values vs = concat (map present vs)"

text \<open>Stores used as concrete inputs below.\<close>

definition two_groups :: store where
  "two_groups =
     \<lparr>rows = [\<lparr>id_c = 1, phoneNumber = Some ''111'', email = Some ''a@x.com'',
                linkedId = None, linkPrecedence = Primary, createdAt = 100,
                updatedAt = 100, deletedAt = None\<rparr>,
               \<lparr>id_c = 2, phoneNumber = Some ''222'', email = Some ''a@x.com'',
                linkedId = Some 1, linkPrecedence = Secondary, createdAt = 101,
                updatedAt = 101, deletedAt = None\<rparr>,
               \<lparr>id_c = 3, phoneNumber = Some ''333'', email = Some ''b@y.com'',
                linkedId = None, linkPrecedence = Primary, createdAt = 102,
                updatedAt = 102, deletedAt = None\<rparr>],
      seq = 3, ticks = 3\<rparr>"

definition tied_roots :: store where
  "tied_roots =
     \<lparr>rows = [\<lparr>id_c = 1, phoneNumber = Some ''111'', email = Some ''a@x.com'',
                linkedId = None, linkPrecedence = Primary, createdAt = 100,
                updatedAt = 100, deletedAt = None\<rparr>,
               \<lparr>id_c = 8, phoneNumber = Some ''888'', email = Some ''b@y.com'',
                linkedId = None, linkPrecedence = Primary, createdAt = 100,
                updatedAt = 100, deletedAt = None\<rparr>],
      seq = 8, ticks = 8\<rparr>"

definition dangling_link :: store where
  "dangling_link =
     \<lparr>rows = [\<lparr>id_c = 1, phoneNumber = Some ''111'', email = Some ''a@x.com'',
                linkedId = Some 99, linkPrecedence = Secondary, createdAt = 100,
                updatedAt = 100, deletedAt = None\<rparr>],
      seq = 1, ticks = 1\<rparr>"

definition link_to_secondary :: store where
  "link_to_secondary =
     \<lparr>rows = [\<lparr>id_c = 1, phoneNumber = Some ''111'', email = Some ''a@x.com'',
                linkedId = None, linkPrecedence = Primary, createdAt = 100,
                updatedAt = 100, deletedAt = None\<rparr>,
               \<lparr>id_c = 2, phoneNumber = Some ''222'', email = Some ''b@y.com'',
                linkedId = Some 1, linkPrecedence = Secondary, createdAt = 101,
                updatedAt = 101, deletedAt = None\<rparr>,
               \<lparr>id_c = 3, phoneNumber = Some ''333'', email = Some ''c@z.com'',
                linkedId = Some 2, linkPrecedence = Secondary, createdAt = 102,
                updatedAt = 102, deletedAt = None\<rparr>],
      seq = 3, ticks = 3\<rparr>"

definition missing_root :: store where
  "missing_root =
     \<lparr>rows = [\<lparr>id_c = 1, phoneNumber = Some ''111'', email = Some ''a@x.com'',
                linkedId = None, linkPrecedence = Primary, createdAt = 100,
                updatedAt = 100, deletedAt = None\<rparr>,
               \<lparr>id_c = 2, phoneNumber = Some ''222'', email = Some ''b@y.com'',
                linkedId = Some 99, linkPrecedence = Secondary, createdAt = 101,
                updatedAt = 101, deletedAt = None\<rparr>],
      seq = 2, ticks = 2\<rparr>"

text \<open>A store whose row 1 is soft-deleted; \<open>t\<close> is the creation time of that row.\<close>

definition deleted_root :: "nat \<Rightarrow> store" where
  "deleted_root t =
     \<lparr>rows = [\<lparr>id_c = 1, phoneNumber = Some ''111'', email = Some ''a@x.com'',
                linkedId = None, linkPrecedence = Primary, createdAt = t,
                updatedAt = t, deletedAt = Some 150\<rparr>,
               \<lparr>id_c = 2, phoneNumber = Some ''222'', email = Some ''a2@x.com'',
                linkedId = Some 1, linkPrecedence = Secondary, createdAt = 110,
                updatedAt = 110, deletedAt = None\<rparr>,
               \<lparr>id_c = 3, phoneNumber = Some ''333'', email = Some ''b@y.com'',
                linkedId = None, linkPrecedence = Primary, createdAt = 120,
                updatedAt = 120, deletedAt = None\<rparr>],
      seq = 3, ticks = 60\<rparr>"

definition demoted :: "int \<Rightarrow> nat \<Rightarrow> contact \<Rightarrow> contact" where
  "demoted sid t c = c\<lparr>linkedId := Some sid, linkPrecedence := Secondary, updatedAt := t\<rparr>"

section \<open>Basic facts\<close>

lemmas model_defs = identify_def truthy_def sql_eq_def get_contacts_by_email_or_phone_def
  get_all_linked_contacts_def create_contact_def update_contact_to_secondary_def next_id_def
  largest_rowid_def max_rowid_def
  consolidate_contacts_def primary_of_def secondaries_of_def add_unique_def exact_match_def
  exact_primary_id_def root_of_def primary_ids_def fetchone_by_id_def demote_others_def
  resolve_primary_def has_new_info_def add_new_info_def py_min_def empty_store_def

lemma consolidate_Some:
  "\<exists>r. consolidate_contacts (Some pid) db = Inr r \<and> primaryContatctId r = pid"
  by (simp add: consolidate_contacts_def Let_def)

lemma set_get_contacts:
  "set (get_contacts_by_email_or_phone em ph db) =
     {c \<in> set (rows db). deletedAt c = None \<and> (sql_eq (email c) em \<or> sql_eq (phoneNumber c) ph)}"
  by (auto simp: get_contacts_by_email_or_phone_def)

lemma set_get_all_linked:
  "set (get_all_linked_contacts pid db) =
     {c \<in> set (rows db). deletedAt c = None \<and>
        (sql_eq (Some (id_c c)) pid \<or> sql_eq (linkedId c) pid)}"
  by (auto simp: get_all_linked_contacts_def)

lemma sql_eq_Some_iff: "sql_eq a (Some y) = (a = Some y)"
  by (auto simp: sql_eq_def split: option.splits)

lemma sql_eq_None: "sql_eq a None = False"
  by (auto simp: sql_eq_def split: option.splits)

lemma exact_row_is_matched:
  assumes "truthy em \<or> truthy ph" "c \<in> set (rows db)" "deletedAt c = None"
    "email c = em" "phoneNumber c = ph"
  shows "c \<in> set (get_contacts_by_email_or_phone em ph db)"
  using assms by (auto simp: set_get_contacts truthy_def sql_eq_def split: option.splits)

lemma fold_max_ge: "(a::int) \<le> fold max xs a"
proof (induction xs arbitrary: a)
  case Nil then show ?case by simp
next
  case (Cons x xs)
  have "a \<le> max x a" by simp
  also have "\<dots> \<le> fold max xs (max x a)" by (rule Cons.IH)
  finally show ?case by simp
qed

lemma fold_max_mem: "(x::int) \<in> set xs \<Longrightarrow> x \<le> fold max xs a"
proof (induction xs arbitrary: a)
  case Nil then show ?case by simp
next
  case (Cons y ys)
  show ?case
  proof (cases "x = y")
    case True
    have "x \<le> max y a" using True by simp
    also have "\<dots> \<le> fold max ys (max y a)" by (rule fold_max_ge)
    finally show ?thesis by simp
  next
    case False
    with Cons.prems have "x \<in> set ys" by simp
    then show ?thesis using Cons.IH by simp
  qed
qed

lemma next_id_fresh: "c \<in> set (rows db) \<Longrightarrow> id_c c < next_id db"
  using fold_max_mem[of "id_c c" "map id_c (rows db)" "seq db"]
  by (simp add: next_id_def largest_rowid_def)

lemma next_id_gt_seq: "seq db < next_id db"
  using fold_max_ge[of "seq db" "map id_c (rows db)"]
  by (simp add: next_id_def largest_rowid_def)

section \<open>The boundary check\<close>

text \<open>
  C8. When the email and the phone number are both absent, \<open>identify\<close> fails with the
  client-input error (status 400). The store is returned as it was, and the result is the
  same for every store: the store is not consulted.
\<close>

theorem C8_both_absent:
  "identify clock set_iter None None db = (Inl HTTP400, db)"
  by (simp add: identify_def truthy_def)

text \<open>
  C10. When the email and the phone number are both the empty string, \<open>identify\<close> fails
  with the same client-input error as when both are absent, and the store is not consulted.
\<close>

theorem C10_both_empty:
  "identify clock set_iter (Some '''') (Some '''') db = (Inl HTTP400, db)
   \<and> identify clock set_iter (Some '''') (Some '''') db = identify clock set_iter None None db"
  by (simp add: identify_def truthy_def)

section \<open>Exact duplicate\<close>

text \<open>
  C4. When the request carries an identifier and some active row of the store has the same
  email and the same phone number as the request (equal, or both absent), \<open>identify\<close>
  returns a consolidated contact and leaves the store as it was; a second call with the
  same pair returns the same consolidated contact and again leaves the store unchanged, so
  it creates no row.
\<close>

theorem C4_exact_duplicate:
  assumes "truthy em \<or> truthy ph"
    and "c \<in> set (rows db)" and "deletedAt c = None"
    and "email c = em" and "phoneNumber c = ph"
  shows "\<exists>r. identify clock set_iter em ph db = (Inr r, db)
           \<and> identify clock set_iter em ph (snd (identify clock set_iter em ph db)) = (Inr r, db)"
proof -
  let ?ex = "get_contacts_by_email_or_phone em ph db"
  have mem: "c \<in> set ?ex" using assms by (rule exact_row_is_matched)
  then have ne: "?ex \<noteq> []" by auto
  from mem assms(4,5) have "exact_match em ph ?ex \<noteq> None"
    by (auto simp: exact_match_def find_None_iff)
  then obtain m where m: "exact_match em ph ?ex = Some m" by auto
  obtain r where r: "consolidate_contacts (Some (exact_primary_id m)) db = Inr r"
    using consolidate_Some by blast
  have "identify clock set_iter em ph db = (Inr r, db)"
    using assms(1) ne m r by (auto simp: identify_def Let_def)
  then show ?thesis by simp
qed

theorem C4_exact_duplicate_witness:
  "(let c = \<lparr>id_c = 1, phoneNumber = Some ''111'', email = Some ''a@x.com'', linkedId = None,
             linkPrecedence = Primary, createdAt = 100, updatedAt = 100, deletedAt = None\<rparr>;
        db = \<lparr>rows = [c], seq = 1, ticks = 1\<rparr>
    in truthy (Some ''a@x.com'') \<and> c \<in> set (rows db) \<and> deletedAt c = None
       \<and> (\<exists>r. identify (\<lambda>n. 100 + n) remdups (Some ''a@x.com'') (Some ''111'') db = (Inr r, db)
             \<and> identify (\<lambda>n. 100 + n) remdups (Some ''a@x.com'') (Some ''111'')
                 (snd (identify (\<lambda>n. 100 + n) remdups (Some ''a@x.com'') (Some ''111'') db))
               = (Inr r, db)))"
proof -
  let ?c = "\<lparr>id_c = 1, phoneNumber = Some ''111'', email = Some ''a@x.com'', linkedId = None,
             linkPrecedence = Primary, createdAt = 100, updatedAt = 100, deletedAt = None\<rparr>"
  let ?db = "\<lparr>rows = [?c], seq = 1, ticks = 1\<rparr>"
  have h1: "truthy (Some ''a@x.com'') \<or> truthy (Some ''111'')" by (simp add: truthy_def)
  have h2: "?c \<in> set (rows ?db)" by simp
  have h3: "deletedAt ?c = None" by simp
  have h4: "email ?c = Some ''a@x.com''" by simp
  have h5: "phoneNumber ?c = Some ''111''" by simp
  show ?thesis
    using C4_exact_duplicate[OF h1 h2 h3 h4 h5, of "\<lambda>n. 100 + n" remdups]
    by (simp add: truthy_def)
qed

section \<open>View assembler: the projected result\<close>

lemma first_occurrences_snoc:
  "first_occurrences (xs @ [x]) = first_occurrences xs @ (if x \<in> set xs then [] else [x])"
proof -
  let ?P = "\<lambda>i. (xs @ [x]) ! i \<notin> set (take i (xs @ [x]))"
  have a: "filter ?P [0..<length xs] = filter (\<lambda>i. xs ! i \<notin> set (take i xs)) [0..<length xs]"
    by (rule filter_cong) (auto simp: nth_append)
  have b: "map (\<lambda>i. (xs @ [x]) ! i) (filter (\<lambda>i. xs ! i \<notin> set (take i xs)) [0..<length xs])
         = map (\<lambda>i. xs ! i) (filter (\<lambda>i. xs ! i \<notin> set (take i xs)) [0..<length xs])"
    by (rule map_cong) (auto simp: nth_append)
  have c: "filter ?P [length xs] = (if x \<in> set xs then [] else [length xs])"
    by simp
  have "first_occurrences (xs @ [x])
      = map (\<lambda>i. (xs @ [x]) ! i) (filter ?P ([0..<length xs] @ [length xs]))"
    by (simp add: first_occurrences_def)
  also have "\<dots> = map (\<lambda>i. (xs @ [x]) ! i) (filter ?P [0..<length xs])
                 @ map (\<lambda>i. (xs @ [x]) ! i) (filter ?P [length xs])"
    by (simp only: filter_append map_append)
  also have "\<dots> = first_occurrences xs @ (if x \<in> set xs then [] else [x])"
    unfolding a b c by (simp add: first_occurrences_def)
  finally show ?thesis .
qed

lemma set_first_occurrences: "set (first_occurrences xs) = set xs"
proof (induction xs rule: rev_induct)
  case Nil
  then show ?case by (simp add: first_occurrences_def)
next
  case (snoc x xs)
  then show ?case by (auto simp: first_occurrences_snoc)
qed

lemma distinct_first_occurrences: "distinct (first_occurrences xs)"
proof (induction xs rule: rev_induct)
  case Nil
  then show ?case by (simp add: first_occurrences_def)
next
  case (snoc x xs)
  then show ?case by (auto simp: first_occurrences_snoc set_first_occurrences)
qed

lemma fold_add_unique:
  "fold (\<lambda>c acc. add_unique (f c) acc) cs [] = first_occurrences (present_values (map f cs))"
proof (induction cs rule: rev_induct)
  case Nil
  then show ?case by (simp add: first_occurrences_def present_values_def)
next
  case (snoc c cs)
  show ?case
  proof (cases "present (f c)")
    case Nil
    then have "add_unique (f c) acc = acc" for acc
      by (auto simp: add_unique_def present_def split: option.splits if_splits)
    with Nil snoc show ?thesis by (simp add: present_values_def)
  next
    case (Cons s ss)
    then have fc: "f c = Some s" "s \<noteq> []" "ss = []"
      by (auto simp: present_def split: option.splits if_splits)
    have "present_values (map f (cs @ [c])) = present_values (map f cs) @ [s]"
      using Cons fc by (simp add: present_values_def)
    then show ?thesis
      using snoc fc
      by (simp add: first_occurrences_snoc add_unique_def set_first_occurrences)
  qed
qed

lemma distinct_map_insort_key:
  "distinct (map f (insort_key k x xs)) = (f x \<notin> f ` set xs \<and> distinct (map f xs))"
  by (induction xs) (auto simp: set_insort_key)

lemma distinct_map_sort_key:
  "distinct (map f (sort_key k xs)) = distinct (map f xs)"
  by (induction xs) (auto simp: distinct_map_insort_key)

lemma distinct_map_filter_eq:
  "distinct (map f xs) \<Longrightarrow> length (filter (\<lambda>x. f x = a) xs) \<le> 1"
proof (induction xs)
  case Nil
  then show ?case by simp
next
  case (Cons x xs)
  show ?case
  proof (cases "f x = a")
    case True
    from Cons.prems have "f x \<notin> f ` set xs" by simp
    with True have "\<forall>y\<in>set xs. f y \<noteq> a" by blast
    then have "filter (\<lambda>x. f x = a) xs = []" by (simp add: filter_empty_conv)
    with True show ?thesis by simp
  next
    case False
    with Cons show ?thesis by simp
  qed
qed

lemma distinct_ids_group:
  "distinct (map id_c (rows db)) \<Longrightarrow> distinct (map id_c (get_all_linked_contacts pid db))"
  by (simp add: get_all_linked_contacts_def distinct_map_sort_key distinct_map_filter)

lemma sorted_group: "sorted (map createdAt (get_all_linked_contacts pid db))"
  by (simp add: get_all_linked_contacts_def)

text \<open>
  C7. For a store whose ids are unique and every primary id \<open>pid\<close>: let the group be the
  active rows with id \<open>pid\<close> or link \<open>pid\<close> in ascending \<open>createdAt\<close> order, the primary
  the row of the group with id \<open>pid\<close> (at most one) and the secondaries the other rows of
  the group, which are in ascending \<open>createdAt\<close> order. The projected result has \<open>pid\<close> as
  primary id; its emails are the non-empty emails of the primary followed by those of the
  secondaries, each value listed once at its first occurrence; its phone numbers are built
  the same way from the phone numbers; its secondary ids are the ids of the secondaries.
\<close>

theorem C7_projection:
  assumes uniq: "distinct (map id_c (rows db))"
    and grp: "grp = get_all_linked_contacts (Some pid) db"
    and prim: "prim = filter (\<lambda>c. id_c c = pid) grp"
    and secs: "secs = filter (\<lambda>c. id_c c \<noteq> pid) grp"
  shows "consolidate_contacts (Some pid) db =
           Inr \<lparr>primaryContatctId = pid,
                emails = first_occurrences (present_values (map email (prim @ secs))),
                phoneNumbers = first_occurrences (present_values (map phoneNumber (prim @ secs))),
                secondaryContactIds = map id_c secs\<rparr>
         \<and> length prim \<le> 1 \<and> sorted (map createdAt secs)
         \<and> set prim \<union> set secs =
             {c \<in> set (rows db). deletedAt c = None \<and> (id_c c = pid \<or> linkedId c = Some pid)}"
proof -
  have len: "length prim \<le> 1"
    unfolding prim grp using distinct_ids_group[OF uniq] by (rule distinct_map_filter_eq)
  have srt: "sorted (map createdAt secs)"
    unfolding secs grp using sorted_group by (rule sorted_filter)
  have mem: "set prim \<union> set secs =
      {c \<in> set (rows db). deletedAt c = None \<and> (id_c c = pid \<or> linkedId c = Some pid)}"
    unfolding prim secs grp by (auto simp: set_get_all_linked sql_eq_Some_iff)
  have sec_eq: "secondaries_of (Some pid) grp = secs"
    by (simp add: secondaries_of_def secs)
  have pr: "primary_of (Some pid) grp = (case prim of [] \<Rightarrow> None | c # cs \<Rightarrow> Some c)"
    using len by (auto simp: primary_of_def prim split: list.splits)
  have seed: "(case primary_of (Some pid) grp of None \<Rightarrow> [] | Some pc \<Rightarrow> add_unique (f pc) [])
              = fold (\<lambda>c acc. add_unique (f c) acc) prim []" for f
    using len pr by (cases prim) (auto split: list.splits)
  have lists: "fold (\<lambda>c acc. add_unique (f c) acc) secs
                 (case primary_of (Some pid) grp of None \<Rightarrow> []
                  | Some pc \<Rightarrow> add_unique (f pc) [])
               = first_occurrences (present_values (map f (prim @ secs)))" for f
    unfolding seed using fold_add_unique[of f "prim @ secs"] by simp
  have "consolidate_contacts (Some pid) db =
           Inr \<lparr>primaryContatctId = pid,
                emails = first_occurrences (present_values (map email (prim @ secs))),
                phoneNumbers = first_occurrences (present_values (map phoneNumber (prim @ secs))),
                secondaryContactIds = map id_c secs\<rparr>"
    unfolding consolidate_contacts_def Let_def grp[symmetric] sec_eq
    using lists[of email] lists[of phoneNumber] by simp
  with len srt mem show ?thesis by simp
qed

theorem C7_projection_witness:
  "(let db = \<lparr>rows = [\<lparr>id_c = 1, phoneNumber = Some ''111'', email = Some ''a@x.com'',
                         linkedId = None, linkPrecedence = Primary, createdAt = 100,
                         updatedAt = 100, deletedAt = None\<rparr>,
                       \<lparr>id_c = 2, phoneNumber = Some ''222'', email = Some ''a@x.com'',
                         linkedId = Some 1, linkPrecedence = Secondary, createdAt = 130,
                         updatedAt = 130, deletedAt = None\<rparr>,
                       \<lparr>id_c = 3, phoneNumber = Some ''111'', email = Some ''b@y.com'',
                         linkedId = Some 1, linkPrecedence = Secondary, createdAt = 120,
                         updatedAt = 120, deletedAt = None\<rparr>],
               seq = 3, ticks = 3\<rparr>
    in distinct (map id_c (rows db))
       \<and> consolidate_contacts (Some 1) db =
           Inr \<lparr>primaryContatctId = 1, emails = [''a@x.com'', ''b@y.com''],
                phoneNumbers = [''111'', ''222''], secondaryContactIds = [3, 2]\<rparr>)"
proof -
  let ?db = "\<lparr>rows = [\<lparr>id_c = 1, phoneNumber = Some ''111'', email = Some ''a@x.com'',
                         linkedId = None, linkPrecedence = Primary, createdAt = 100,
                         updatedAt = 100, deletedAt = None\<rparr>,
                       \<lparr>id_c = 2, phoneNumber = Some ''222'', email = Some ''a@x.com'',
                         linkedId = Some 1, linkPrecedence = Secondary, createdAt = 130,
                         updatedAt = 130, deletedAt = None\<rparr>,
                       \<lparr>id_c = 3, phoneNumber = Some ''111'', email = Some ''b@y.com'',
                         linkedId = Some 1, linkPrecedence = Secondary, createdAt = 120,
                         updatedAt = 120, deletedAt = None\<rparr>],
               seq = 3, ticks = 3\<rparr>"
  have h: "distinct (map id_c (rows ?db))" by simp
  have fo1: "first_occurrences [''a@x.com'', ''b@y.com'', ''a@x.com''] = [''a@x.com'', ''b@y.com'']"
    by (simp add: first_occurrences_def upt_rec)
  have fo2: "first_occurrences [''111'', ''111'', ''222''] = [''111'', ''222'']"
    by (simp add: first_occurrences_def upt_rec)
  have g: "get_all_linked_contacts (Some 1) ?db =
       [\<lparr>id_c = 1, phoneNumber = Some ''111'', email = Some ''a@x.com'',
                         linkedId = None, linkPrecedence = Primary, createdAt = 100,
                         updatedAt = 100, deletedAt = None\<rparr>,
                       \<lparr>id_c = 3, phoneNumber = Some ''111'', email = Some ''b@y.com'',
                         linkedId = Some 1, linkPrecedence = Secondary, createdAt = 120,
                         updatedAt = 120, deletedAt = None\<rparr>,
                       \<lparr>id_c = 2, phoneNumber = Some ''222'', email = Some ''a@x.com'',
                         linkedId = Some 1, linkPrecedence = Secondary, createdAt = 130,
                         updatedAt = 130, deletedAt = None\<rparr>]"
    by (simp add: get_all_linked_contacts_def sql_eq_def)
  show ?thesis
    using C7_projection[OF h refl refl refl, of 1] h
    unfolding g by (simp add: present_values_def present_def fo1 fo2 Let_def)
qed

section \<open>No match\<close>

lemma create_contact_ok:
  "largest_rowid db < max_rowid \<Longrightarrow>
   create_contact clock em ph l pr db =
     (Inr (next_id db),
      db\<lparr>rows := rows db @
             [\<lparr>id_c = next_id db, phoneNumber = ph, email = em, linkedId = l,
               linkPrecedence = pr, createdAt = clock (ticks db),
               updatedAt = clock (ticks db), deletedAt = None\<rparr>],
          seq := next_id db, ticks := Suc (ticks db)\<rparr>)"
  by (simp add: create_contact_def Let_def)

lemma create_contact_full:
  "max_rowid \<le> largest_rowid db \<Longrightarrow>
   create_contact clock em ph l pr db = (Inl OperationalError, db\<lparr>ticks := Suc (ticks db)\<rparr>)"
  by (simp add: create_contact_def Let_def)

text \<open>
  C5, as stated, fails. The group returned for the new primary is every active row with
  that id or with a link equal to that id, and the table does not enforce the link as a
  foreign key: in the store below the one row already links to id 2, the request matches
  nothing, and the group returned for the new primary 2 has row 1 as a secondary.
\<close>

theorem C5_counterexample:
  "identify (\<lambda>n. 200 + n) remdups (Some ''b@y.com'') (Some ''222'')
     \<lparr>rows = [\<lparr>id_c = 1, phoneNumber = Some ''111'', email = Some ''a@x.com'',
                linkedId = Some 2, linkPrecedence = Secondary, createdAt = 100,
                updatedAt = 100, deletedAt = None\<rparr>],
      seq = 1, ticks = 0\<rparr>
   = (Inr \<lparr>primaryContatctId = 2, emails = [''b@y.com'', ''a@x.com''],
           phoneNumbers = [''222'', ''111''], secondaryContactIds = [1]\<rparr>,
      \<lparr>rows = [\<lparr>id_c = 1, phoneNumber = Some ''111'', email = Some ''a@x.com'',
                linkedId = Some 2, linkPrecedence = Secondary, createdAt = 100,
                updatedAt = 100, deletedAt = None\<rparr>,
               \<lparr>id_c = 2, phoneNumber = Some ''222'', email = Some ''b@y.com'',
                linkedId = None, linkPrecedence = Primary, createdAt = 200,
                updatedAt = 200, deletedAt = None\<rparr>],
       seq = 2, ticks = 1\<rparr>)"
  by (simp add: model_defs)

text \<open>
  C5, amended. When the request carries an identifier, the match query returns no row, no
  row of the store links to the id about to be assigned, and the largest rowid is below
  \<open>2\<^sup>6\<^sup>3 - 1\<close>, \<open>identify\<close> appends exactly one row: it has a fresh id, the given email and
  phone number, no link, precedence primary, and both timestamps equal to the clock
  reading. The consolidated contact returned has that id as primary id, the email and the
  phone number as the only list entries (none for an absent or empty one), and no
  secondary ids.
\<close>

theorem C5_no_match_creates_primary:
  assumes valid: "truthy em \<or> truthy ph"
    and nomatch: "get_contacts_by_email_or_phone em ph db = []"
    and nolink: "\<forall>c\<in>set (rows db). linkedId c \<noteq> Some (next_id db)"
    and room: "largest_rowid db < max_rowid"
  shows "identify clock set_iter em ph db =
           (Inr \<lparr>primaryContatctId = next_id db, emails = present em,
                  phoneNumbers = present ph, secondaryContactIds = []\<rparr>,
            db\<lparr>rows := rows db @
                   [\<lparr>id_c = next_id db, phoneNumber = ph, email = em, linkedId = None,
                     linkPrecedence = Primary, createdAt = clock (ticks db),
                     updatedAt = clock (ticks db), deletedAt = None\<rparr>],
                seq := next_id db, ticks := Suc (ticks db)\<rparr>)
         \<and> next_id db \<notin> id_c ` set (rows db)"
proof -
  let ?row = "\<lparr>id_c = next_id db, phoneNumber = ph, email = em, linkedId = None,
                linkPrecedence = Primary, createdAt = clock (ticks db),
                updatedAt = clock (ticks db), deletedAt = None\<rparr>"
  let ?db1 = "db\<lparr>rows := rows db @ [?row], seq := next_id db, ticks := Suc (ticks db)\<rparr>"
  have fresh: "\<forall>c\<in>set (rows db). id_c c \<noteq> next_id db"
    using next_id_fresh by force
  have old: "filter (\<lambda>c. deletedAt c = None \<and>
                 (id_c c = next_id db \<or> linkedId c = Some (next_id db)))
               (rows db) = []"
    using fresh nolink by (auto simp: filter_empty_conv)
  have grp: "get_all_linked_contacts (Some (next_id db)) ?db1 = [?row]"
    by (simp add: get_all_linked_contacts_def old sql_eq_Some_iff)
  have cons: "consolidate_contacts (Some (next_id db)) ?db1 =
      Inr \<lparr>primaryContatctId = next_id db, emails = present em,
           phoneNumbers = present ph, secondaryContactIds = []\<rparr>"
    unfolding consolidate_contacts_def grp
    by (simp add: primary_of_def secondaries_of_def add_unique_def present_def split: option.splits)
  have "identify clock set_iter em ph db = (consolidate_contacts (Some (next_id db)) ?db1, ?db1)"
    using valid nomatch by (auto simp: identify_def create_contact_ok[OF room])
  with cons fresh show ?thesis by auto
qed

theorem C5_no_match_creates_primary_witness:
  "(let db = \<lparr>rows = [\<lparr>id_c = 1, phoneNumber = Some ''111'', email = Some ''a@x.com'',
                         linkedId = None, linkPrecedence = Primary, createdAt = 100,
                         updatedAt = 100, deletedAt = None\<rparr>,
                       \<lparr>id_c = 2, phoneNumber = Some ''222'', email = Some ''a@x.com'',
                         linkedId = Some 1, linkPrecedence = Secondary, createdAt = 101,
                         updatedAt = 101, deletedAt = None\<rparr>],
               seq = 2, ticks = 2\<rparr>
    in truthy (Some ''b@y.com'')
       \<and> get_contacts_by_email_or_phone (Some ''b@y.com'') (Some ''333'') db = []
       \<and> next_id db = 3 \<and> map linkedId (rows db) = [None, Some 1]
       \<and> largest_rowid db < max_rowid
       \<and> identify (\<lambda>n. 100 + n) remdups (Some ''b@y.com'') (Some ''333'') db =
           (Inr \<lparr>primaryContatctId = 3, emails = [''b@y.com''], phoneNumbers = [''333''],
                  secondaryContactIds = []\<rparr>,
            \<lparr>rows = rows db @
                      [\<lparr>id_c = 3, phoneNumber = Some ''333'', email = Some ''b@y.com'',
                        linkedId = None, linkPrecedence = Primary, createdAt = 102,
                        updatedAt = 102, deletedAt = None\<rparr>],
             seq = 3, ticks = 3\<rparr>))"
proof -
  let ?db = "\<lparr>rows = [\<lparr>id_c = 1, phoneNumber = Some ''111'', email = Some ''a@x.com'',
                         linkedId = None, linkPrecedence = Primary, createdAt = 100,
                         updatedAt = 100, deletedAt = None\<rparr>,
                       \<lparr>id_c = 2, phoneNumber = Some ''222'', email = Some ''a@x.com'',
                         linkedId = Some 1, linkPrecedence = Secondary, createdAt = 101,
                         updatedAt = 101, deletedAt = None\<rparr>],
               seq = 2, ticks = 2\<rparr>"
  have h1: "truthy (Some ''b@y.com'') \<or> truthy (Some ''333'')" by (simp add: truthy_def)
  have h2: "get_contacts_by_email_or_phone (Some ''b@y.com'') (Some ''333'') ?db = []"
    by (simp add: get_contacts_by_email_or_phone_def sql_eq_def)
  have n: "next_id ?db = 3" by (simp add: next_id_def largest_rowid_def)
  have h3: "\<forall>c\<in>set (rows ?db). linkedId c \<noteq> Some (next_id ?db)"
    by (simp add: n)
  have h4: "largest_rowid ?db < max_rowid" by (simp add: largest_rowid_def max_rowid_def)
  show ?thesis
    using C5_no_match_creates_primary[OF h1 h2 h3 h4, of "\<lambda>n. 100 + n" remdups] h2 h4
    by (simp add: truthy_def present_def n Let_def)
qed

section \<open>New-information check\<close>

lemma set_group_explicit:
  "set (get_all_linked_contacts P db) =
     {c \<in> set (rows db). deletedAt c = None \<and> P \<noteq> None \<and> (Some (id_c c) = P \<or> linkedId c = P)}"
  by (cases P) (auto simp: set_get_all_linked sql_eq_Some_iff sql_eq_None)

lemma has_new_info_explicit:
  assumes "G = {c \<in> set (rows db). deletedAt c = None \<and> P \<noteq> None
                  \<and> (Some (id_c c) = P \<or> linkedId c = P)}"
  shows "has_new_info em ph P db =
      ((truthy em \<and> em \<notin> email ` G) \<or> (truthy ph \<and> ph \<notin> phoneNumber ` G))"
proof -
  have "set (get_all_linked_contacts P db) = G"
    unfolding assms by (rule set_group_explicit)
  then show ?thesis
    unfolding has_new_info_def Let_def by auto
qed

lemma identify_partial:
  assumes "truthy em \<or> truthy ph"
    and "existing = get_contacts_by_email_or_phone em ph db"
    and "existing \<noteq> []"
    and "exact_match em ph existing = None"
  shows "identify clock set_iter em ph db =
          (case resolve_primary clock set_iter existing db of
             Inl e \<Rightarrow> (Inl e, db)
           | Inr (P, db1) \<Rightarrow>
               (case add_new_info clock em ph P db1 of
                  (Some e, db2) \<Rightarrow> (Inl e, db2)
                | (None, db2) \<Rightarrow> (consolidate_contacts P db2, db2)))"
  using assms(1,3,4) unfolding identify_def assms(2)[symmetric]
  by (auto simp: Let_def split: sum.splits)

lemma add_new_info_cases:
  "add_new_info clock em ph P db1 =
     (if has_new_info em ph P db1
      then if largest_rowid db1 < max_rowid
           then (None, db1\<lparr>rows := rows db1 @
                        [\<lparr>id_c = next_id db1, phoneNumber = ph, email = em, linkedId = P,
                          linkPrecedence = Secondary, createdAt = clock (ticks db1),
                          updatedAt = clock (ticks db1), deletedAt = None\<rparr>],
                     seq := next_id db1, ticks := Suc (ticks db1)\<rparr>)
           else (Some OperationalError, db1\<lparr>ticks := Suc (ticks db1)\<rparr>)
      else (None, db1))"
  by (simp add: add_new_info_def create_contact_ok create_contact_full)

lemma consolidate_not_operational: "consolidate_contacts P db \<noteq> Inl OperationalError"
  by (cases P) (simp_all add: consolidate_contacts_def Let_def)

text \<open>
  C3, as stated, fails when no rowid is left. In the store below the largest rowid is
  \<open>2\<^sup>6\<^sup>3 - 1\<close>; the request matches the row by email and brings a new phone number, so
  the call reaches the new-information check with new information, and the \<^verbatim>\<open>INSERT\<close>
  fails: no row is created and the call ends with the store's error.
\<close>

theorem C3_counterexample:
  "identify (\<lambda>n. 200 + n) remdups (Some ''a@x.com'') (Some ''222'')
     \<lparr>rows = [\<lparr>id_c = 9223372036854775807, phoneNumber = Some ''111'',
                email = Some ''a@x.com'', linkedId = None, linkPrecedence = Primary,
                createdAt = 100, updatedAt = 100, deletedAt = None\<rparr>],
      seq = 9223372036854775807, ticks = 0\<rparr>
   = (Inl OperationalError,
      \<lparr>rows = [\<lparr>id_c = 9223372036854775807, phoneNumber = Some ''111'',
                email = Some ''a@x.com'', linkedId = None, linkPrecedence = Primary,
                createdAt = 100, updatedAt = 100, deletedAt = None\<rparr>],
       seq = 9223372036854775807, ticks = 1\<rparr>)"
  by code_simp

text \<open>
  C3, amended. Take a call that reaches the new-information check: the request carries an
  identifier, the match query returns rows, none equals the request, and the merge step
  resolves the primary id \<open>P\<close> in store \<open>db1\<close>. Let the group \<open>G\<close> of \<open>P\<close> be the active rows
  of \<open>db1\<close> whose id is \<open>P\<close> or whose link is \<open>P\<close>. The request has new information when its
  email is present and is not the email of a row of \<open>G\<close>, or its phone number is present
  and is not the phone number of a row of \<open>G\<close>. With new information and a rowid left, the
  call appends one row to \<open>db1\<close>: fresh id, the email and phone number of the request, link
  \<open>P\<close>, precedence secondary. With new information and no rowid left it creates no row and
  fails with the store's error. Without new information the final store is \<open>db1\<close>.
\<close>

theorem C3_new_information:
  assumes valid: "truthy em \<or> truthy ph"
    and ex: "existing = get_contacts_by_email_or_phone em ph db"
    and ne: "existing \<noteq> []"
    and noexact: "exact_match em ph existing = None"
    and res: "resolve_primary clock set_iter existing db = Inr (P, db1)"
    and grp: "G = {c \<in> set (rows db1). deletedAt c = None \<and> P \<noteq> None
                     \<and> (Some (id_c c) = P \<or> linkedId c = P)}"
    and new: "new = ((truthy em \<and> em \<notin> email ` G) \<or> (truthy ph \<and> ph \<notin> phoneNumber ` G))"
  shows "snd (identify clock set_iter em ph db) =
          (if new
           then if largest_rowid db1 < max_rowid
                then db1\<lparr>rows := rows db1 @
                        [\<lparr>id_c = next_id db1, phoneNumber = ph, email = em, linkedId = P,
                          linkPrecedence = Secondary, createdAt = clock (ticks db1),
                          updatedAt = clock (ticks db1), deletedAt = None\<rparr>],
                     seq := next_id db1, ticks := Suc (ticks db1)\<rparr>
                else db1\<lparr>ticks := Suc (ticks db1)\<rparr>
           else db1)
        \<and> (fst (identify clock set_iter em ph db) = Inl OperationalError)
            = (new \<and> max_rowid \<le> largest_rowid db1)
        \<and> next_id db1 \<notin> id_c ` set (rows db1)"
proof -
  have cond: "has_new_info em ph P db1 = new"
    unfolding new using grp by (rule has_new_info_explicit)
  have fresh: "next_id db1 \<notin> id_c ` set (rows db1)"
    using next_id_fresh by force
  have idf: "identify clock set_iter em ph db =
      (case add_new_info clock em ph P db1 of
         (Some e, db2) \<Rightarrow> (Inl e, db2)
       | (None, db2) \<Rightarrow> (consolidate_contacts P db2, db2))"
    using identify_partial[OF valid ex ne noexact] res by simp
  show ?thesis
  proof (cases "new")
    case False
    then show ?thesis
      using fresh consolidate_not_operational
      unfolding idf add_new_info_cases cond by simp
  next
    case True
    show ?thesis
    proof (cases "largest_rowid db1 < max_rowid")
      case room: True
      then show ?thesis
        using True fresh consolidate_not_operational
        unfolding idf add_new_info_cases cond by simp
    next
      case False
      then show ?thesis
        using True fresh
        unfolding idf add_new_info_cases cond by simp
    qed
  qed
qed

theorem C3_new_information_witness:
  "(let db = \<lparr>rows = [\<lparr>id_c = 1, phoneNumber = Some ''111'', email = Some ''a@x.com'',
                         linkedId = None, linkPrecedence = Primary, createdAt = 100,
                         updatedAt = 100, deletedAt = None\<rparr>], seq = 1, ticks = 1\<rparr>
    in truthy (Some ''a@x.com'')
       \<and> get_contacts_by_email_or_phone (Some ''a@x.com'') (Some ''222'') db = rows db
       \<and> exact_match (Some ''a@x.com'') (Some ''222'') (rows db) = None
       \<and> resolve_primary (\<lambda>n. 100 + n) remdups (rows db) db = Inr (Some 1, db)
       \<and> snd (identify (\<lambda>n. 100 + n) remdups (Some ''a@x.com'') (Some ''222'') db) =
           \<lparr>rows = rows db @
              [\<lparr>id_c = 2, phoneNumber = Some ''222'', email = Some ''a@x.com'',
                linkedId = Some 1, linkPrecedence = Secondary, createdAt = 101,
                updatedAt = 101, deletedAt = None\<rparr>], seq = 2, ticks = 2\<rparr>
       \<and> fst (identify (\<lambda>n. 100 + n) remdups (Some ''a@x.com'') (Some ''222'') db)
           \<noteq> Inl OperationalError)"
proof -
  let ?c = "\<lparr>id_c = 1, phoneNumber = Some ''111'', email = Some ''a@x.com'',
                         linkedId = None, linkPrecedence = Primary, createdAt = 100,
                         updatedAt = 100, deletedAt = None\<rparr>"
  let ?db = "\<lparr>rows = [?c], seq = 1, ticks = 1\<rparr>"
  have h1: "truthy (Some ''a@x.com'') \<or> truthy (Some ''222'')" by (simp add: truthy_def)
  have h2: "rows ?db = get_contacts_by_email_or_phone (Some ''a@x.com'') (Some ''222'') ?db"
    by (simp add: get_contacts_by_email_or_phone_def sql_eq_def)
  have h3: "rows ?db \<noteq> []" by simp
  have h4: "exact_match (Some ''a@x.com'') (Some ''222'') (rows ?db) = None"
    by (simp add: exact_match_def)
  have h5: "resolve_primary (\<lambda>n. 100 + n) remdups (rows ?db) ?db = Inr (Some 1, ?db)"
    by (simp add: resolve_primary_def primary_ids_def root_of_def)
  have g: "{c \<in> set (rows ?db). deletedAt c = None \<and> Some (1::int) \<noteq> None
              \<and> (Some (id_c c) = Some 1 \<or> linkedId c = Some 1)} = {?c}"
    by auto
  have room: "largest_rowid ?db < max_rowid" by (simp add: largest_rowid_def max_rowid_def)
  have n: "next_id ?db = 2" by (simp add: next_id_def largest_rowid_def)
  show ?thesis
    using C3_new_information[OF h1 h2 h3 h4 h5 refl refl] h2[symmetric] h4 h5 room
    unfolding g by (simp add: truthy_def next_id_def largest_rowid_def Let_def)
qed

section \<open>Merge of several roots\<close>

lemma fetchone_Some:
  "fetchone_by_id pid db = Some c \<Longrightarrow> c \<in> set (rows db) \<and> Some (id_c c) = pid"
  by (auto simp: fetchone_by_id_def find_Some_iff sql_eq_def split: option.splits)

lemma fetchone_None_iff:
  "fetchone_by_id pid db = None \<longleftrightarrow> (\<forall>c\<in>set (rows db). Some (id_c c) \<noteq> pid)"
  by (auto simp: fetchone_by_id_def find_None_iff sql_eq_def split: option.splits)

lemma fetch_primaries_ok:
  "\<forall>r\<in>set its. \<exists>c\<in>set (rows db). Some (id_c c) = r \<Longrightarrow>
     \<exists>cs. fetch_primaries its db = Inr cs \<and> map (\<lambda>c. Some (id_c c)) cs = its
          \<and> set cs \<subseteq> set (rows db)"
proof (induction its)
  case Nil
  then show ?case by simp
next
  case (Cons r its)
  then obtain cs where cs: "fetch_primaries its db = Inr cs"
      "map (\<lambda>c. Some (id_c c)) cs = its" "set cs \<subseteq> set (rows db)"
    by auto
  from Cons.prems have "fetchone_by_id r db \<noteq> None"
    by (auto simp: fetchone_None_iff)
  then obtain c where c: "fetchone_by_id r db = Some c" by auto
  with fetchone_Some have "c \<in> set (rows db)" "Some (id_c c) = r" by blast+
  with cs c show ?case by simp
qed

lemma fetch_primaries_fail:
  "\<exists>r\<in>set its. \<forall>c\<in>set (rows db). Some (id_c c) \<noteq> r \<Longrightarrow>
     fetch_primaries its db = Inl TypeError"
proof (induction its)
  case Nil
  then show ?case by simp
next
  case (Cons r its)
  show ?case
  proof (cases "fetchone_by_id r db")
    case None
    then show ?thesis by simp
  next
    case (Some c)
    then have "\<not> (\<forall>c\<in>set (rows db). Some (id_c c) \<noteq> r)"
      using fetchone_None_iff[of r db] by simp
    with Cons.prems have "\<exists>r\<in>set its. \<forall>c\<in>set (rows db). Some (id_c c) \<noteq> r" by auto
    then have "fetch_primaries its db = Inl TypeError" by (rule Cons.IH)
    with Some show ?thesis by simp
  qed
qed

lemma min_from_split:
  "\<exists>pre post. m # xs = pre @ min_from f m xs # post
      \<and> (\<forall>c\<in>set pre. f (min_from f m xs) < f c)
      \<and> (\<forall>c\<in>set post. f (min_from f m xs) \<le> f c)"
proof (induction xs arbitrary: m)
  case Nil
  have "[m] = [] @ min_from f m [] # []" by simp
  then show ?case by force
next
  case (Cons x xs)
  define m' where "m' = (if f x < f m then x else m)"
  define r where "r = min_from f m' xs"
  from Cons.IH[of m'] obtain pre post where sp: "m' # xs = pre @ r # post"
    and lt: "\<forall>c\<in>set pre. f r < f c" and le: "\<forall>c\<in>set post. f r \<le> f c"
    unfolding r_def by blast
  have r_le: "f r \<le> f m'"
  proof (cases pre)
    case Nil
    with sp show ?thesis by simp
  next
    case (Cons a as)
    with sp have "m' \<in> set pre" by simp
    with lt show ?thesis by auto
  qed
  have res: "min_from f m (x # xs) = r" by (simp add: r_def m'_def)
  show ?case
  proof (cases "f x < f m")
    case True
    then have m': "m' = x" by (simp add: m'_def)
    have "m # x # xs = (m # pre) @ r # post" using sp m' by simp
    moreover have "\<forall>c\<in>set (m # pre). f r < f c" using lt r_le True m' by auto
    ultimately show ?thesis unfolding res using le by blast
  next
    case False
    then have m': "m' = m" by (simp add: m'_def)
    show ?thesis
    proof (cases pre)
      case Nil
      with sp m' have rm: "r = m" and px: "post = xs" by auto
      have "m # x # xs = [] @ r # (x # xs)" using rm by simp
      moreover have "\<forall>c\<in>set (x # xs). f r \<le> f c"
        using le rm px False by auto
      moreover have "\<forall>c\<in>set []. f r < f c" by simp
      ultimately show ?thesis unfolding res by blast
    next
      case (Cons a as)
      with sp m' have a: "a = m" and xs: "xs = as @ r # post" by auto
      have "m # x # xs = (m # x # as) @ r # post" using xs by simp
      moreover have "\<forall>c\<in>set (m # x # as). f r < f c"
      proof -
        have "m \<in> set pre" using Cons a by simp
        then have "f r < f m" using lt by blast
        moreover have "set as \<subseteq> set pre" using Cons by auto
        ultimately show ?thesis using lt False by auto
      qed
      ultimately show ?thesis unfolding res using le by blast
    qed
  qed
qed

lemma py_min_split:
  "cs \<noteq> [] \<Longrightarrow>
     \<exists>s pre post. py_min f cs = Inr s \<and> cs = pre @ s # post
        \<and> (\<forall>c\<in>set pre. f s < f c) \<and> (\<forall>c\<in>set post. f s \<le> f c)"
proof (cases cs)
  case Nil
  assume "cs \<noteq> []"
  with Nil show ?thesis by simp
next
  case (Cons m xs)
  with min_from_split[of m xs f] show ?thesis by (auto simp: py_min_def)
qed

lemma demoted_demoted: "demoted sid t (demoted sid t' c) = demoted sid t c"
  by (simp add: demoted_def)

lemma id_c_demoted: "id_c (demoted sid t c) = id_c c"
  by (simp add: demoted_def)

lemma rows_update:
  "rows (update_contact_to_secondary clock cid sid db) =
     map (\<lambda>c. if id_c c = cid then demoted sid (clock (ticks db)) c else c) (rows db)"
  by (simp add: update_contact_to_secondary_def demoted_def Let_def)

lemma ticks_update:
  "ticks (update_contact_to_secondary clock cid sid db) = Suc (ticks db)"
  by (simp add: update_contact_to_secondary_def Let_def)

lemma demote_others_Nil: "demote_others clock m [] db = db"
  by (simp add: demote_others_def)

lemma demote_others_Cons:
  "demote_others clock m (p # ps) db =
     demote_others clock m ps
       (if id_c p \<noteq> id_c m then update_contact_to_secondary clock (id_c p) (id_c m) db else db)"
  by (simp add: demote_others_def)

lemma length_rows_demote:
  "length (rows (demote_others clock m cs db)) = length (rows db)"
  by (induction cs arbitrary: db) (simp_all add: demote_others_Nil demote_others_Cons rows_update)

lemma ticks_demote_mono: "ticks db \<le> ticks (demote_others clock m cs db)"
proof (induction cs arbitrary: db)
  case Nil
  then show ?case by (simp add: demote_others_Nil)
next
  case (Cons p ps)
  let ?d = "if id_c p \<noteq> id_c m then update_contact_to_secondary clock (id_c p) (id_c m) db else db"
  have "ticks db \<le> ticks ?d" by (simp add: ticks_update)
  also have "\<dots> \<le> ticks (demote_others clock m ps ?d)" by (rule Cons.IH)
  finally show ?case by (simp only: demote_others_Cons)
qed

lemma demote_untouched:
  assumes "i < length (rows db)"
    and "id_c (rows db ! i) \<notin> id_c ` set cs \<or> id_c (rows db ! i) = id_c m"
  shows "rows (demote_others clock m cs db) ! i = rows db ! i"
  using assms
proof (induction cs arbitrary: db)
  case Nil
  then show ?case by (simp add: demote_others_Nil)
next
  case (Cons p ps)
  define d where
    "d = (if id_c p \<noteq> id_c m then update_contact_to_secondary clock (id_c p) (id_c m) db else db)"
  have len: "length (rows d) = length (rows db)" by (simp add: d_def rows_update)
  have row: "rows d ! i = rows db ! i"
    using Cons.prems by (auto simp: d_def rows_update)
  have "rows (demote_others clock m ps d) ! i = rows d ! i"
    using Cons.prems len row by (intro Cons.IH) auto
  then show ?case unfolding demote_others_Cons d_def[symmetric] using row by simp
qed

lemma demote_hit:
  assumes "i < length (rows db)"
    and "id_c (rows db ! i) \<in> id_c ` set cs" and "id_c (rows db ! i) \<noteq> id_c m"
  shows "\<exists>k. ticks db \<le> k \<and> k < ticks (demote_others clock m cs db)
            \<and> rows (demote_others clock m cs db) ! i = demoted (id_c m) (clock k) (rows db ! i)"
  using assms
proof (induction cs arbitrary: db)
  case Nil
  then show ?case by simp
next
  case (Cons p ps)
  define d where
    "d = (if id_c p \<noteq> id_c m then update_contact_to_secondary clock (id_c p) (id_c m) db else db)"
  have len: "length (rows d) = length (rows db)" by (simp add: d_def rows_update)
  have fin: "demote_others clock m (p # ps) db = demote_others clock m ps d"
    by (simp only: demote_others_Cons d_def)
  have td: "ticks db \<le> ticks d" by (simp add: d_def ticks_update)
  show ?case
  proof (cases "id_c p = id_c (rows db ! i)")
    case True
    with Cons.prems have upd: "d = update_contact_to_secondary clock (id_c p) (id_c m) db"
      by (simp add: d_def)
    have row: "rows d ! i = demoted (id_c m) (clock (ticks db)) (rows db ! i)"
      using Cons.prems True by (simp add: upd rows_update)
    have tk: "ticks d = Suc (ticks db)" by (simp add: upd ticks_update)
    show ?thesis
    proof (cases "id_c (rows db ! i) \<in> id_c ` set ps")
      case True
      have "\<exists>k. ticks d \<le> k \<and> k < ticks (demote_others clock m ps d)
            \<and> rows (demote_others clock m ps d) ! i = demoted (id_c m) (clock k) (rows d ! i)"
        using Cons.prems len True row by (intro Cons.IH) (auto simp: id_c_demoted)
      then obtain k where "ticks d \<le> k" "k < ticks (demote_others clock m ps d)"
        "rows (demote_others clock m ps d) ! i = demoted (id_c m) (clock k) (rows d ! i)"
        by blast
      then show ?thesis unfolding fin row demoted_demoted using tk
        by (intro exI[of _ k]) auto
    next
      case False
      have "rows (demote_others clock m ps d) ! i = rows d ! i"
        using Cons.prems len False row by (intro demote_untouched) (auto simp: id_c_demoted)
      moreover have "ticks d \<le> ticks (demote_others clock m ps d)" by (rule ticks_demote_mono)
      ultimately show ?thesis unfolding fin row using tk
        by (intro exI[of _ "ticks db"]) auto
    qed
  next
    case False
    then have row: "rows d ! i = rows db ! i"
      using Cons.prems by (auto simp: d_def rows_update)
    have "\<exists>k. ticks d \<le> k \<and> k < ticks (demote_others clock m ps d)
            \<and> rows (demote_others clock m ps d) ! i = demoted (id_c m) (clock k) (rows d ! i)"
      using Cons.prems len False row by (intro Cons.IH) auto
    then obtain k where "ticks d \<le> k" "k < ticks (demote_others clock m ps d)"
        "rows (demote_others clock m ps d) ! i = demoted (id_c m) (clock k) (rows d ! i)"
      by blast
    then show ?thesis unfolding fin row using td
      by (intro exI[of _ k]) auto
  qed
qed

lemma ids_update:
  "map id_c (rows (update_contact_to_secondary clock cid sid db)) = map id_c (rows db)"
  by (simp add: rows_update id_c_demoted comp_def if_distrib cong: if_cong)

lemma seq_update: "seq (update_contact_to_secondary clock cid sid db) = seq db"
  by (simp add: update_contact_to_secondary_def Let_def)

lemma largest_rowid_demote:
  "largest_rowid (demote_others clock m cs db) = largest_rowid db"
proof (induction cs arbitrary: db)
  case Nil
  then show ?case by (simp add: demote_others_Nil)
next
  case (Cons p ps)
  have "largest_rowid (update_contact_to_secondary clock (id_c p) (id_c m) db) = largest_rowid db"
    by (simp add: largest_rowid_def ids_update seq_update)
  then show ?case by (simp add: demote_others_Cons Cons.IH)
qed

lemma add_new_info_rows:
  "\<exists>extra. rows (snd (add_new_info clock em ph P db1)) = rows db1 @ extra"
  by (simp add: add_new_info_cases)

lemma add_new_info_ticks: "ticks db1 \<le> ticks (snd (add_new_info clock em ph P db1))"
  by (simp add: add_new_info_cases)

lemma add_new_info_error:
  "fst (add_new_info clock em ph P db1) = None
   \<or> fst (add_new_info clock em ph P db1) = Some OperationalError"
  by (simp add: add_new_info_cases)

lemma add_new_info_room:
  "largest_rowid db1 < max_rowid \<Longrightarrow> fst (add_new_info clock em ph P db1) = None"
  by (simp add: add_new_info_cases)

lemma resolve_primary_multi:
  assumes multi: "1 < length (remdups (primary_ids existing))"
    and iter_s: "set (set_iter (primary_ids existing)) = set (primary_ids existing)"
    and have_rows: "\<forall>r\<in>set (primary_ids existing). \<exists>c\<in>set (rows db). Some (id_c c) = r"
  shows "\<exists>s pre post.
      resolve_primary clock set_iter existing db =
        Inr (Some (id_c s), demote_others clock s (pre @ s # post) db)
      \<and> map (\<lambda>c. Some (id_c c)) (pre @ s # post) = set_iter (primary_ids existing)
      \<and> set (pre @ s # post) \<subseteq> set (rows db)
      \<and> (\<forall>c\<in>set pre. createdAt s < createdAt c)
      \<and> (\<forall>c\<in>set post. createdAt s \<le> createdAt c)"
proof -
  let ?its = "set_iter (primary_ids existing)"
  have "\<forall>r\<in>set ?its. \<exists>c\<in>set (rows db). Some (id_c c) = r"
    using iter_s have_rows by simp
  then obtain cs where cs: "fetch_primaries ?its db = Inr cs"
      "map (\<lambda>c. Some (id_c c)) cs = ?its" "set cs \<subseteq> set (rows db)"
    using fetch_primaries_ok by blast
  from multi have "primary_ids existing \<noteq> []" by auto
  then have "?its \<noteq> []" using iter_s by (metis set_empty)
  with cs(2) have "cs \<noteq> []" by auto
  then obtain s pre post where s: "py_min createdAt cs = Inr s" "cs = pre @ s # post"
      "\<forall>c\<in>set pre. createdAt s < createdAt c" "\<forall>c\<in>set post. createdAt s \<le> createdAt c"
    using py_min_split[of cs createdAt] by blast
  have "resolve_primary clock set_iter existing db =
        Inr (Some (id_c s), demote_others clock s cs db)"
    using multi cs(1) s(1) by (simp add: resolve_primary_def Let_def)
  with cs s show ?thesis by blast
qed

lemma resolve_primary_missing:
  assumes multi: "1 < length (remdups (primary_ids existing))"
    and iter_s: "set (set_iter (primary_ids existing)) = set (primary_ids existing)"
    and missing: "\<exists>r\<in>set (primary_ids existing). \<forall>c\<in>set (rows db). Some (id_c c) \<noteq> r"
  shows "resolve_primary clock set_iter existing db = Inl TypeError"
proof -
  have "fetch_primaries (set_iter (primary_ids existing)) db = Inl TypeError"
    using missing iter_s by (intro fetch_primaries_fail) simp
  then show ?thesis using multi by (simp add: resolve_primary_def Let_def)
qed

lemma distinct_singleton: "distinct xs \<Longrightarrow> set xs = {r} \<Longrightarrow> xs = [r]"
proof (cases xs)
  case Nil
  assume "set xs = {r}"
  with Nil show ?thesis by simp
next
  case (Cons a as)
  assume d: "distinct xs" and s: "set xs = {r}"
  from s Cons have a: "a = r" by auto
  have "as = []"
  proof (cases as)
    case Nil
    then show ?thesis .
  next
    case (Cons b bs)
    with s \<open>xs = a # as\<close> have "b = r" by auto
    with d a Cons \<open>xs = a # as\<close> show ?thesis by simp
  qed
  with a Cons show ?thesis by simp
qed

lemma resolve_primary_single:
  assumes single: "\<not> 1 < length (remdups (primary_ids existing))"
    and ne: "existing \<noteq> []"
    and iter_d: "distinct (set_iter (primary_ids existing))"
    and iter_s: "set (set_iter (primary_ids existing)) = set (primary_ids existing)"
  shows "\<exists>r. set (primary_ids existing) = {r}
           \<and> resolve_primary clock set_iter existing db = Inr (r, db)"
proof -
  let ?pids = "primary_ids existing"
  from ne have pne: "?pids \<noteq> []" by (simp add: primary_ids_def)
  then have "remdups ?pids \<noteq> []" by simp
  with single have "length (remdups ?pids) = 1"
    by (cases "remdups ?pids") auto
  then obtain r where r: "remdups ?pids = [r]"
    by (cases "remdups ?pids") auto
  then have sr: "set ?pids = {r}" by (metis set_remdups list.simps(15) empty_set)
  with iter_d iter_s have "set_iter ?pids = [r]" by (intro distinct_singleton) simp_all
  then have "resolve_primary clock set_iter existing db = Inr (r, db)"
    using single by (simp add: resolve_primary_def Let_def)
  with sr show ?thesis by blast
qed

text \<open>
  C2, as stated, fails on the tie-break. The survivor is chosen by \<^verbatim>\<open>min\<close> over the rows
  fetched in the iteration order of the set \<^verbatim>\<open>primary_ids\<close>, and \<^verbatim>\<open>min\<close> keeps the first of
  several rows with the least \<open>createdAt\<close>; no id is compared. In the store below the roots
  1 and 8 have the same \<open>createdAt\<close>. CPython keeps a small set of integers in a table of
  eight slots at the index given by the value modulo 8 and iterates the slots in order, so
  the set holding 1 and 8 yields 8 first: root 8 survives and root 1, with the smaller id,
  is demoted.
\<close>

theorem C2_counterexample:
  "identify (\<lambda>n. 100 + n) (\<lambda>xs. rev (remdups xs)) (Some ''a@x.com'') (Some ''888'') tied_roots
   = (Inr \<lparr>primaryContatctId = 8, emails = [''b@y.com'', ''a@x.com''],
           phoneNumbers = [''888'', ''111''], secondaryContactIds = [1]\<rparr>,
      \<lparr>rows = [\<lparr>id_c = 1, phoneNumber = Some ''111'', email = Some ''a@x.com'',
                 linkedId = Some 8, linkPrecedence = Secondary, createdAt = 100,
                 updatedAt = 108, deletedAt = None\<rparr>,
                \<lparr>id_c = 8, phoneNumber = Some ''888'', email = Some ''b@y.com'',
                 linkedId = None, linkPrecedence = Primary, createdAt = 100,
                 updatedAt = 100, deletedAt = None\<rparr>],
       seq = 8, ticks = 9\<rparr>)"
  by code_simp

text \<open>
  C2, amended. Take a call on the partial-match path (the request carries an identifier,
  no matched row equals it) whose matched rows resolve to more than one distinct root, all
  of them ids of rows of the table. List the rows of the roots in the order in which the
  root set is iterated. The survivor \<open>s\<close> is the first row of that list whose \<open>createdAt\<close> is
  least: the rows before it are strictly younger, the rows after it are not older. If the
  call returns a response, its primary id is the id of \<open>s\<close>; the only failure possible is
  the store's error of the new-information step. Every row of the table whose id is
  another root becomes secondary with link \<open>s\<close> and \<open>updatedAt\<close> set to a clock reading taken
  during the call, its other columns (id, \<open>createdAt\<close>, email, phone number, \<open>deletedAt\<close>)
  unchanged; every other row of the table is unchanged.
\<close>

theorem C2_oldest_root_survives:
  assumes valid: "truthy em \<or> truthy ph"
    and ex: "existing = get_contacts_by_email_or_phone em ph db"
    and noexact: "exact_match em ph existing = None"
    and pids: "pids = primary_ids existing"
    and multi: "1 < length (remdups pids)"
    and iter_s: "set (set_iter pids) = set pids"
    and have_rows: "\<forall>r\<in>set pids. \<exists>c\<in>set (rows db). Some (id_c c) = r"
    and fin: "db' = snd (identify clock set_iter em ph db)"
  shows "\<exists>s pre post.
      (case fst (identify clock set_iter em ph db) of
         Inr r \<Rightarrow> primaryContatctId r = id_c s
       | Inl e \<Rightarrow> e = OperationalError)
      \<and> map (\<lambda>c. Some (id_c c)) (pre @ s # post) = set_iter pids
      \<and> set (pre @ s # post) \<subseteq> set (rows db)
      \<and> (\<forall>c\<in>set pre. createdAt s < createdAt c)
      \<and> (\<forall>c\<in>set post. createdAt s \<le> createdAt c)
      \<and> length (rows db) \<le> length (rows db')
      \<and> (\<forall>i<length (rows db).
            if Some (id_c (rows db ! i)) \<in> set pids \<and> id_c (rows db ! i) \<noteq> id_c s
            then \<exists>k. ticks db \<le> k \<and> k < ticks db'
                   \<and> rows db' ! i = (rows db ! i)\<lparr>linkedId := Some (id_c s),
                                        linkPrecedence := Secondary, updatedAt := clock k\<rparr>
            else rows db' ! i = rows db ! i)"
proof -
  from multi have ne: "existing \<noteq> []" by (auto simp: pids primary_ids_def)
  obtain s pre post where res: "resolve_primary clock set_iter existing db =
        Inr (Some (id_c s), demote_others clock s (pre @ s # post) db)"
    and ord: "map (\<lambda>c. Some (id_c c)) (pre @ s # post) = set_iter pids"
    and sub: "set (pre @ s # post) \<subseteq> set (rows db)"
    and lt: "\<forall>c\<in>set pre. createdAt s < createdAt c"
    and le: "\<forall>c\<in>set post. createdAt s \<le> createdAt c"
    using resolve_primary_multi[where set_iter=set_iter and clock=clock,
        OF multi[unfolded pids] iter_s[unfolded pids] have_rows[unfolded pids]]
    unfolding pids by blast
  define cs where "cs = pre @ s # post"
  define db1 where "db1 = demote_others clock s cs db"
  define ani where "ani = add_new_info clock em ph (Some (id_c s)) db1"
  have idf: "identify clock set_iter em ph db =
      (case ani of (Some e, db2) \<Rightarrow> (Inl e, db2)
       | (None, db2) \<Rightarrow> (consolidate_contacts (Some (id_c s)) db2, db2))"
    using identify_partial[OF valid ex ne noexact] res
    by (simp add: ani_def db1_def cs_def)
  have db': "db' = snd ani"
    unfolding fin idf by (cases ani) (auto split: option.splits)
  have resp: "case fst (identify clock set_iter em ph db) of
         Inr r \<Rightarrow> primaryContatctId r = id_c s
       | Inl e \<Rightarrow> e = OperationalError"
  proof (cases "fst ani")
    case None
    obtain r where "consolidate_contacts (Some (id_c s)) (snd ani) = Inr r"
        "primaryContatctId r = id_c s"
      using consolidate_Some by blast
    with None show ?thesis unfolding idf by (cases ani) auto
  next
    case (Some e)
    then have "e = OperationalError"
      using add_new_info_error[of clock em ph "Some (id_c s)" db1] unfolding ani_def by auto
    with Some show ?thesis unfolding idf by (cases ani) auto
  qed
  obtain extra where extra: "rows db' = rows db1 @ extra"
    unfolding db' ani_def using add_new_info_rows by blast
  have len1: "length (rows db1) = length (rows db)"
    unfolding db1_def by (rule length_rows_demote)
  have tk: "ticks db1 \<le> ticks db'" unfolding db' ani_def by (rule add_new_info_ticks)
  have ids: "(Some x \<in> set pids) = (x \<in> id_c ` set cs)" for x
  proof -
    have "set pids = (\<lambda>c. Some (id_c c)) ` set cs"
      using ord iter_s unfolding cs_def by (metis set_map)
    then show ?thesis by auto
  qed
  have rows: "if Some (id_c (rows db ! i)) \<in> set pids \<and> id_c (rows db ! i) \<noteq> id_c s
            then \<exists>k. ticks db \<le> k \<and> k < ticks db'
                   \<and> rows db' ! i = (rows db ! i)\<lparr>linkedId := Some (id_c s),
                                        linkPrecedence := Secondary, updatedAt := clock k\<rparr>
            else rows db' ! i = rows db ! i" if i: "i < length (rows db)" for i
  proof (cases "Some (id_c (rows db ! i)) \<in> set pids \<and> id_c (rows db ! i) \<noteq> id_c s")
    case True
    then have "id_c (rows db ! i) \<in> id_c ` set cs" "id_c (rows db ! i) \<noteq> id_c s"
      using ids by auto
    from demote_hit[OF i this, of clock]
    obtain k where k: "ticks db \<le> k" "k < ticks db1"
        "rows db1 ! i = demoted (id_c s) (clock k) (rows db ! i)"
      unfolding db1_def by blast
    have "rows db' ! i = rows db1 ! i" using i len1 extra by (simp add: nth_append)
    with k tk True show ?thesis
      by (auto simp: demoted_def intro!: exI[of _ k])
  next
    case False
    then have "id_c (rows db ! i) \<notin> id_c ` set cs \<or> id_c (rows db ! i) = id_c s"
      using ids by auto
    from demote_untouched[OF i this, of clock]
    have "rows db1 ! i = rows db ! i" unfolding db1_def .
    moreover have "rows db' ! i = rows db1 ! i" using i len1 extra by (simp add: nth_append)
    ultimately have "rows db' ! i = rows db ! i" by simp
    then show ?thesis by (simp only: False if_False)
  qed
  have len: "length (rows db) \<le> length (rows db')" using len1 extra by simp
  have rows_all: "\<forall>i<length (rows db).
            if Some (id_c (rows db ! i)) \<in> set pids \<and> id_c (rows db ! i) \<noteq> id_c s
            then \<exists>k. ticks db \<le> k \<and> k < ticks db'
                   \<and> rows db' ! i = (rows db ! i)\<lparr>linkedId := Some (id_c s),
                                        linkPrecedence := Secondary, updatedAt := clock k\<rparr>
            else rows db' ! i = rows db ! i"
  proof (intro allI impI)
    fix i assume "i < length (rows db)"
    then show "if Some (id_c (rows db ! i)) \<in> set pids \<and> id_c (rows db ! i) \<noteq> id_c s
            then \<exists>k. ticks db \<le> k \<and> k < ticks db'
                   \<and> rows db' ! i = (rows db ! i)\<lparr>linkedId := Some (id_c s),
                                        linkPrecedence := Secondary, updatedAt := clock k\<rparr>
            else rows db' ! i = rows db ! i" by (rule rows)
  qed
  note all = conjI[OF resp conjI[OF ord conjI[OF sub conjI[OF lt conjI[OF le conjI[OF len rows_all]]]]]]
  show ?thesis
    by (rule exI[where x=s], rule exI[where x=pre], rule exI[where x=post]) (rule all)
qed

theorem C2_oldest_root_survives_witness:
  "(truthy (Some ''a@x.com'') \<or> truthy (Some ''333''))
   \<and> exact_match (Some ''a@x.com'') (Some ''333'')
        (get_contacts_by_email_or_phone (Some ''a@x.com'') (Some ''333'') two_groups) = None
   \<and> primary_ids (get_contacts_by_email_or_phone (Some ''a@x.com'') (Some ''333'') two_groups)
        = [Some 1, Some 1, Some 3]
   \<and> fst (identify (\<lambda>n. 100 + n) remdups (Some ''a@x.com'') (Some ''333'') two_groups)
        = Inr \<lparr>primaryContatctId = 1, emails = [''a@x.com'', ''b@y.com''],
               phoneNumbers = [''111'', ''222'', ''333''], secondaryContactIds = [2, 3]\<rparr>
   \<and> (\<exists>s pre post.
      (case fst (identify (\<lambda>n. 100 + n) remdups (Some ''a@x.com'') (Some ''333'') two_groups) of
         Inr r \<Rightarrow> primaryContatctId r = id_c s
       | Inl e \<Rightarrow> e = OperationalError)
      \<and> map (\<lambda>c. Some (id_c c)) (pre @ s # post) =
          remdups (primary_ids
            (get_contacts_by_email_or_phone (Some ''a@x.com'') (Some ''333'') two_groups))
      \<and> set (pre @ s # post) \<subseteq> set (rows two_groups)
      \<and> (\<forall>c\<in>set pre. createdAt s < createdAt c)
      \<and> (\<forall>c\<in>set post. createdAt s \<le> createdAt c)
      \<and> length (rows two_groups) \<le> length (rows
            (snd (identify (\<lambda>n. 100 + n) remdups (Some ''a@x.com'') (Some ''333'') two_groups)))
      \<and> (\<forall>i<length (rows two_groups).
            if Some (id_c (rows two_groups ! i)) \<in> set (primary_ids
                 (get_contacts_by_email_or_phone (Some ''a@x.com'') (Some ''333'') two_groups))
               \<and> id_c (rows two_groups ! i) \<noteq> id_c s
            then \<exists>k. ticks two_groups \<le> k
                   \<and> k < ticks
                       (snd (identify (\<lambda>n. 100 + n) remdups (Some ''a@x.com'') (Some ''333'')
                              two_groups))
                   \<and> rows (snd (identify (\<lambda>n. 100 + n) remdups (Some ''a@x.com'') (Some ''333'')
                                   two_groups)) ! i
                       = (rows two_groups ! i)\<lparr>linkedId := Some (id_c s),
                            linkPrecedence := Secondary, updatedAt := (\<lambda>n. 100 + n) k\<rparr>
            else rows (snd (identify (\<lambda>n. 100 + n) remdups (Some ''a@x.com'') (Some ''333'')
                              two_groups)) ! i
                   = rows two_groups ! i))"
proof -
  let ?e = "Some ''a@x.com''" and ?p = "Some ''333''"
  let ?ex = "get_contacts_by_email_or_phone ?e ?p two_groups"
  have h1: "truthy ?e \<or> truthy ?p" by (simp add: truthy_def)
  have g: "?ex = rows two_groups" by code_simp
  have h3: "exact_match ?e ?p ?ex = None" by code_simp
  have p: "primary_ids ?ex = [Some 1, Some 1, Some 3]" by code_simp
  have h5: "1 < length (remdups (primary_ids ?ex))" unfolding p by simp
  have h6: "set (remdups (primary_ids ?ex)) = set (primary_ids ?ex)" by simp
  have h7: "\<forall>r\<in>set (primary_ids ?ex). \<exists>c\<in>set (rows two_groups). Some (id_c c) = r"
    unfolding p by (simp add: two_groups_def)
  have r: "fst (identify (\<lambda>n. 100 + n) remdups ?e ?p two_groups)
        = Inr \<lparr>primaryContatctId = 1, emails = [''a@x.com'', ''b@y.com''],
               phoneNumbers = [''111'', ''222'', ''333''], secondaryContactIds = [2, 3]\<rparr>"
    by code_simp
  note c = C2_oldest_root_survives[where clock="\<lambda>n. 100 + n" and set_iter=remdups,
      OF h1 refl h3 refl h5 h6 h7 refl]
  show ?thesis
    by (intro conjI) (rule h1, rule h3, rule p, rule r, rule c)
qed

section \<open>Inconsistent links\<close>

text \<open>
  C9, as stated, fails: the code has no consistency check. In the first store below the
  matched row links to id 99, which no row has; in the second the matched row 3 links to
  row 2, which is secondary. Both calls proceed, return a response and create a new
  secondary row under that link.
\<close>

theorem C9_counterexample:
  "identify (\<lambda>n. 100 + n) remdups (Some ''a@x.com'') (Some ''222'') dangling_link
   = (Inr \<lparr>primaryContatctId = 99, emails = [''a@x.com''],
           phoneNumbers = [''111'', ''222''], secondaryContactIds = [1, 2]\<rparr>,
      \<lparr>rows = [\<lparr>id_c = 1, phoneNumber = Some ''111'', email = Some ''a@x.com'',
                 linkedId = Some 99, linkPrecedence = Secondary, createdAt = 100,
                 updatedAt = 100, deletedAt = None\<rparr>,
                \<lparr>id_c = 2, phoneNumber = Some ''222'', email = Some ''a@x.com'',
                 linkedId = Some 99, linkPrecedence = Secondary, createdAt = 101,
                 updatedAt = 101, deletedAt = None\<rparr>],
       seq = 2, ticks = 2\<rparr>)
   \<and> identify (\<lambda>n. 100 + n) remdups (Some ''c@z.com'') (Some ''444'') link_to_secondary
   = (Inr \<lparr>primaryContatctId = 2, emails = [''b@y.com'', ''c@z.com''],
           phoneNumbers = [''222'', ''333'', ''444''], secondaryContactIds = [3, 4]\<rparr>,
      \<lparr>rows = rows link_to_secondary @
               [\<lparr>id_c = 4, phoneNumber = Some ''444'', email = Some ''c@z.com'',
                 linkedId = Some 2, linkPrecedence = Secondary, createdAt = 103,
                 updatedAt = 103, deletedAt = None\<rparr>],
       seq = 4, ticks = 4\<rparr>)"
  by code_simp

text \<open>
  C9, amended. Take a call on the partial-match path with a rowid left in the table. It
  fails exactly in two cases: when more than one distinct root was collected and some
  root is null or is the id of no row (the \<^verbatim>\<open>TypeError\<close> of \<^verbatim>\<open>dict(None)\<close>, raised before any
  write: the store is unchanged), and when the only root collected is null (the response
  cannot be built). A link to a row that exists and is not primary, or a single root that
  is the id of no row, does not make the call fail.
\<close>

theorem C9_failures_of_partial_match:
  assumes valid: "truthy em \<or> truthy ph"
    and ex: "existing = get_contacts_by_email_or_phone em ph db"
    and ne: "existing \<noteq> []"
    and noexact: "exact_match em ph existing = None"
    and pids: "pids = primary_ids existing"
    and iter_d: "distinct (set_iter pids)"
    and iter_s: "set (set_iter pids) = set pids"
    and room: "largest_rowid db < max_rowid"
  shows "((\<exists>e. fst (identify clock set_iter em ph db) = Inl e) \<longleftrightarrow>
            (1 < length (remdups pids)
               \<and> (\<exists>r\<in>set pids. \<forall>c\<in>set (rows db). Some (id_c c) \<noteq> r))
            \<or> set pids = {None})
       \<and> (1 < length (remdups pids)
             \<and> (\<exists>r\<in>set pids. \<forall>c\<in>set (rows db). Some (id_c c) \<noteq> r)
           \<longrightarrow> identify clock set_iter em ph db = (Inl TypeError, db))"
proof -
  define missing where
    "missing = (\<exists>r\<in>set pids. \<forall>c\<in>set (rows db). Some (id_c c) \<noteq> r)"
  define fails where "fails = (\<exists>e. fst (identify clock set_iter em ph db) = Inl e)"
  define multi where "multi = (1 < length (remdups pids))"
  define only_null where "only_null = (set pids = {None})"
  define type_error where "type_error = (identify clock set_iter em ph db = (Inl TypeError, db))"
  have main: "(fails \<longleftrightarrow> (multi \<and> missing) \<or> only_null) \<and> (multi \<and> missing \<longrightarrow> type_error)"
  proof (cases multi)
    case True
    then have m: "1 < length (remdups pids)" by (simp add: multi_def)
    have notNone: "\<not> only_null"
    proof
      assume "only_null"
      then have "set pids = {None}" by (simp only: only_null_def)
      then have c1: "card (set pids) = card {None :: int option}" by (rule arg_cong)
      have c2: "card {None :: int option} = 1" by simp
      have c3: "card (set pids) = length (remdups pids)" by (rule card_set)
      from c1 c2 c3 m show False by linarith
    qed
    show ?thesis
    proof (cases missing)
      case miss: True
      have "resolve_primary clock set_iter existing db = Inl TypeError"
        using resolve_primary_missing[where set_iter=set_iter and clock=clock,
            OF m[unfolded pids] iter_s[unfolded pids] miss[unfolded missing_def pids]] .
      then have te: "identify clock set_iter em ph db = (Inl TypeError, db)"
        using identify_partial[OF valid ex ne noexact] by simp
      then have "fails" unfolding fails_def by simp
      moreover have "type_error" unfolding type_error_def by (rule te)
      ultimately show ?thesis using True miss by blast
    next
      case nomiss: False
      then have hr: "\<forall>r\<in>set pids. \<exists>c\<in>set (rows db). Some (id_c c) = r"
        unfolding missing_def by blast
      obtain s cs where res: "resolve_primary clock set_iter existing db =
          Inr (Some (id_c s), demote_others clock s cs db)"
        using resolve_primary_multi[where set_iter=set_iter and clock=clock,
            OF m[unfolded pids] iter_s[unfolded pids] hr[unfolded pids]]
        by blast
      define ani where
        "ani = add_new_info clock em ph (Some (id_c s)) (demote_others clock s cs db)"
      have an: "fst ani = None"
        unfolding ani_def using room by (intro add_new_info_room) (simp add: largest_rowid_demote)
      have idf: "identify clock set_iter em ph db =
          (case ani of (Some e, db2) \<Rightarrow> (Inl e, db2)
           | (None, db2) \<Rightarrow> (consolidate_contacts (Some (id_c s)) db2, db2))"
        using identify_partial[OF valid ex ne noexact] res by (simp add: ani_def)
      have f: "fst (identify clock set_iter em ph db)
            = consolidate_contacts (Some (id_c s)) (snd ani)"
        unfolding idf using an by (cases ani) auto
      obtain r where "consolidate_contacts (Some (id_c s)) (snd ani) = Inr r"
        using consolidate_Some by blast
      with f have "\<not> fails" unfolding fails_def by simp
      then show ?thesis using nomiss notNone by blast
    qed
  next
    case False
    then have single: "\<not> 1 < length (remdups pids)" by (simp add: multi_def)
    obtain r where r: "set pids = {r}"
        "resolve_primary clock set_iter existing db = Inr (r, db)"
      using resolve_primary_single[where set_iter=set_iter and clock=clock and db=db,
          OF single[unfolded pids] ne iter_d[unfolded pids] iter_s[unfolded pids]]
      unfolding pids by blast
    define ani where "ani = add_new_info clock em ph r db"
    have an: "fst ani = None"
      unfolding ani_def using room by (rule add_new_info_room)
    have idf: "identify clock set_iter em ph db =
          (case ani of (Some e, db2) \<Rightarrow> (Inl e, db2)
           | (None, db2) \<Rightarrow> (consolidate_contacts r db2, db2))"
      using identify_partial[OF valid ex ne noexact] r(2) by (simp add: ani_def)
    have f: "fst (identify clock set_iter em ph db) = consolidate_contacts r (snd ani)"
      unfolding idf using an by (cases ani) auto
    have "fails \<longleftrightarrow> only_null"
    proof (cases r)
      case None
      then have "fst (identify clock set_iter em ph db) = Inl ValidationError"
        using f by (simp add: consolidate_contacts_def Let_def)
      then have "fails" unfolding fails_def by simp
      moreover have "only_null" unfolding only_null_def using r(1) None by simp
      ultimately show ?thesis by simp
    next
      case (Some p)
      obtain resp where "consolidate_contacts (Some p) (snd ani) = Inr resp"
        using consolidate_Some by blast
      then have "\<not> fails" unfolding fails_def using f Some by simp
      moreover have "\<not> only_null" unfolding only_null_def using r(1) Some by simp
      ultimately show ?thesis by simp
    qed
    with False show ?thesis by blast
  qed
  show ?thesis
    using main unfolding missing_def fails_def multi_def only_null_def type_error_def .
qed

theorem C9_failures_of_partial_match_witness:
  "(truthy (Some ''a@x.com'') \<or> truthy (Some ''222''))
   \<and> exact_match (Some ''a@x.com'') (Some ''222'')
        (get_contacts_by_email_or_phone (Some ''a@x.com'') (Some ''222'') missing_root) = None
   \<and> primary_ids (get_contacts_by_email_or_phone (Some ''a@x.com'') (Some ''222'') missing_root)
        = [Some 1, Some 99]
   \<and> largest_rowid missing_root < max_rowid
   \<and> identify (\<lambda>n. 100 + n) remdups (Some ''a@x.com'') (Some ''222'') missing_root
        = (Inl TypeError, missing_root)"
proof -
  let ?e = "Some ''a@x.com''" and ?p = "Some ''222''"
  let ?ex = "get_contacts_by_email_or_phone ?e ?p missing_root"
  have h1: "truthy ?e \<or> truthy ?p" by (simp add: truthy_def)
  have g: "?ex = rows missing_root" by code_simp
  have ne: "?ex \<noteq> []" unfolding g by (simp add: missing_root_def)
  have h3: "exact_match ?e ?p ?ex = None" by code_simp
  have p: "primary_ids ?ex = [Some 1, Some 99]" by code_simp
  have d: "distinct (remdups (primary_ids ?ex))" by simp
  have s: "set (remdups (primary_ids ?ex)) = set (primary_ids ?ex)" by simp
  have room: "largest_rowid missing_root < max_rowid" by code_simp
  have mm: "1 < length (remdups (primary_ids ?ex))
      \<and> (\<exists>r\<in>set (primary_ids ?ex). \<forall>c\<in>set (rows missing_root). Some (id_c c) \<noteq> r)"
    unfolding p by (simp add: missing_root_def)
  note c = C9_failures_of_partial_match[where clock="\<lambda>n. 100 + n" and set_iter=remdups,
      OF h1 refl ne h3 refl d s room]
  note t = conjunct2[OF c, THEN mp, OF mm]
  show ?thesis
    by (intro conjI) (rule h1, rule h3, rule p, rule room, rule t)
qed

section \<open>The flatten invariant\<close>

text \<open>
  C1 on the code. The five calls below start from the empty store. The first four create
  primary 1 with secondary 2 and primary 3 with secondary 4. The fifth matches rows 1, 2
  and 3, so the roots are 1 and 3: row 3 is demoted under row 1, and row 4 is left with its
  link to row 3, now a secondary. The response of the fifth call has lost row 4 and its
  phone number.
\<close>

theorem C1_merge_leaves_link_to_secondary:
  "identify (\<lambda>n. 100 + n) remdups (Some ''a@x.com'') (Some ''333'')
     (snd (identify (\<lambda>n. 100 + n) remdups (Some ''b@y.com'') (Some ''444'')
       (snd (identify (\<lambda>n. 100 + n) remdups (Some ''b@y.com'') (Some ''333'')
         (snd (identify (\<lambda>n. 100 + n) remdups (Some ''a@x.com'') (Some ''222'')
           (snd (identify (\<lambda>n. 100 + n) remdups (Some ''a@x.com'') (Some ''111'')
             empty_store))))))))
   = (Inr \<lparr>primaryContatctId = 1, emails = [''a@x.com'', ''b@y.com''],
           phoneNumbers = [''111'', ''222'', ''333''], secondaryContactIds = [2, 3]\<rparr>,
      \<lparr>rows = [\<lparr>id_c = 1, phoneNumber = Some ''111'', email = Some ''a@x.com'',
                 linkedId = None, linkPrecedence = Primary, createdAt = 100,
                 updatedAt = 100, deletedAt = None\<rparr>,
                \<lparr>id_c = 2, phoneNumber = Some ''222'', email = Some ''a@x.com'',
                 linkedId = Some 1, linkPrecedence = Secondary, createdAt = 101,
                 updatedAt = 101, deletedAt = None\<rparr>,
                \<lparr>id_c = 3, phoneNumber = Some ''333'', email = Some ''b@y.com'',
                 linkedId = Some 1, linkPrecedence = Secondary, createdAt = 102,
                 updatedAt = 104, deletedAt = None\<rparr>,
                \<lparr>id_c = 4, phoneNumber = Some ''444'', email = Some ''b@y.com'',
                 linkedId = Some 3, linkPrecedence = Secondary, createdAt = 103,
                 updatedAt = 103, deletedAt = None\<rparr>],
       seq = 4, ticks = 5\<rparr>)"
  by code_simp

section \<open>Soft-deleted rows in the merge\<close>

text \<open>
  C6 on the code. The rows of the roots are fetched by id with no test of \<open>deletedAt\<close>. In
  the store below row 1 is soft-deleted and row 2, active, links to it; the request matches
  rows 2 and 3, so the roots are 1 and 3. With row 1 created at 100 it is the oldest root:
  row 3 is demoted under the soft-deleted row. With row 1 created at 130 row 3 survives,
  the soft-deleted row itself is rewritten as a secondary of row 3, and a new row is
  created. The two stores differ only in a column of the soft-deleted row.
\<close>

theorem C6_deleted_root_decides_merge:
  "identify (\<lambda>n. 100 + n) remdups (Some ''a2@x.com'') (Some ''333'') (deleted_root 100)
   = (Inr \<lparr>primaryContatctId = 1, emails = [''a2@x.com'', ''b@y.com''],
           phoneNumbers = [''222'', ''333''], secondaryContactIds = [2, 3]\<rparr>,
      \<lparr>rows = [\<lparr>id_c = 1, phoneNumber = Some ''111'', email = Some ''a@x.com'',
                 linkedId = None, linkPrecedence = Primary, createdAt = 100,
                 updatedAt = 100, deletedAt = Some 150\<rparr>,
                \<lparr>id_c = 2, phoneNumber = Some ''222'', email = Some ''a2@x.com'',
                 linkedId = Some 1, linkPrecedence = Secondary, createdAt = 110,
                 updatedAt = 110, deletedAt = None\<rparr>,
                \<lparr>id_c = 3, phoneNumber = Some ''333'', email = Some ''b@y.com'',
                 linkedId = Some 1, linkPrecedence = Secondary, createdAt = 120,
                 updatedAt = 160, deletedAt = None\<rparr>],
       seq = 3, ticks = 61\<rparr>)
   \<and> identify (\<lambda>n. 100 + n) remdups (Some ''a2@x.com'') (Some ''333'') (deleted_root 130)
   = (Inr \<lparr>primaryContatctId = 3, emails = [''b@y.com'', ''a2@x.com''],
           phoneNumbers = [''333''], secondaryContactIds = [4]\<rparr>,
      \<lparr>rows = [\<lparr>id_c = 1, phoneNumber = Some ''111'', email = Some ''a@x.com'',
                 linkedId = Some 3, linkPrecedence = Secondary, createdAt = 130,
                 updatedAt = 160, deletedAt = Some 150\<rparr>,
                \<lparr>id_c = 2, phoneNumber = Some ''222'', email = Some ''a2@x.com'',
                 linkedId = Some 1, linkPrecedence = Secondary, createdAt = 110,
                 updatedAt = 110, deletedAt = None\<rparr>,
                \<lparr>id_c = 3, phoneNumber = Some ''333'', email = Some ''b@y.com'',
                 linkedId = None, linkPrecedence = Primary, createdAt = 120,
                 updatedAt = 120, deletedAt = None\<rparr>,
                \<lparr>id_c = 4, phoneNumber = Some ''333'', email = Some ''a2@x.com'',
                 linkedId = Some 3, linkPrecedence = Secondary, createdAt = 161,
                 updatedAt = 161, deletedAt = None\<rparr>],
       seq = 4, ticks = 62\<rparr>)"
  by code_simp

end
